theory Spec2Isabelle
  imports Main "HOL-Library.AList" "HOL-Library.Monad_Syntax"
begin

section \<open>JavaScript values\<close>

text \<open>
  The hook \<open>useField\<close> works on the block that \<open>getBlock\<close> parses out of the post
  content, so every value it sees is a JSON value, or \<open>undefined\<close> for a property that
  is not there. An object is the list of its own properties in the order in which they
  were created, each key once; this is the order JavaScript enumerates keys that are
  not array indices, which is what field slugs such as \<open>new-field\<close> are. Numbers are
  the integers that \<open>order\<close> and the field numbers range over.
\<close>

datatype jsval =
    JUndefined
  | JNull
  | JBool bool
  | JNum int
  | JStr string
  | JArr "jsval list"
  | JObj "(string \<times> jsval) list"

type_synonym props = "(string \<times> jsval) list"

text \<open>Decimal rendering of a number, as \<open>Number.prototype.toString\<close> and template
  literals produce it.\<close>

definition digit_char :: "nat \<Rightarrow> char" where
  "digit_char d = char_of (48 + d)"

function show_nat :: "nat \<Rightarrow> string" where
  "show_nat n = (if n < 10 then [digit_char n] else show_nat (n div 10) @ [digit_char (n mod 10)])"
  by pat_completeness auto
termination
  by (relation "measure id") auto

declare show_nat.simps [simp del]

definition show_int :: "int \<Rightarrow> string" where
  "show_int i = (if i < 0 then CHR ''-'' # show_nat (nat (- i)) else show_nat (nat i))"

text \<open>Truthiness (\<open>ToBoolean\<close>): what \<open>!x\<close>, \<open>x && y\<close> and \<open>x ? a : b\<close> test.\<close>

fun truthy :: "jsval \<Rightarrow> bool" where
  "truthy JUndefined = False"
| "truthy JNull = False"
| "truthy (JBool b) = b"
| "truthy (JNum n) = (n \<noteq> 0)"
| "truthy (JStr s) = (s \<noteq> [])"
| "truthy (JArr xs) = True"
| "truthy (JObj kvs) = True"

text \<open>
  Strict equality \<open>===\<close>. Primitives compare by value. Objects and arrays compare by
  reference; the hook compares the \<open>location\<close> and the \<open>name\<close> of fields, which are
  strings or absent in a stored block. Values taken from different places of the
  parsed document are never the same reference, and an object or array is taken to be
  unequal to every value, also where the source would compare an attribute of a field
  with itself.
\<close>

fun strict_eq :: "jsval \<Rightarrow> jsval \<Rightarrow> bool" where
  "strict_eq (JArr xs) b = False"
| "strict_eq (JObj kvs) b = False"
| "strict_eq a b = (a = b)"

text \<open>\<open>own kvs k\<close> reads the property \<open>k\<close> of an object: \<open>undefined\<close> when it has none.
  The objects of a block are read under the identifiers of fields and the names of
  their attributes; the names that every object inherits (\<open>constructor\<close>, \<open>toString\<close>
  and the like) are taken not to be among the keys looked up in them.\<close>

definition own :: "props \<Rightarrow> string \<Rightarrow> jsval" where
  "own kvs k = (case map_of kvs k of Some v \<Rightarrow> v | None \<Rightarrow> JUndefined)"

definition index_key :: "nat \<Rightarrow> string \<Rightarrow> nat option" where
  "index_key n k = find (\<lambda>i. show_nat i = k) [0..<n]"

text \<open>
  \<open>js_get v k\<close> is the property read \<open>v[k]\<close>. Reading a property of \<open>undefined\<close> or
  \<open>null\<close> throws a TypeError, which is the result \<open>None\<close> here and in every function
  below. Arrays and strings have their indices and \<open>length\<close>; numbers and booleans
  have no properties of their own.
\<close>

fun js_get :: "jsval \<Rightarrow> string \<Rightarrow> jsval option" where
  "js_get JUndefined k = None"
| "js_get JNull k = None"
| "js_get (JObj kvs) k = Some (own kvs k)"
| "js_get (JArr xs) k =
     Some (if k = ''length'' then JNum (int (length xs))
           else case index_key (length xs) k of Some i \<Rightarrow> xs ! i | None \<Rightarrow> JUndefined)"
| "js_get (JStr s) k =
     Some (if k = ''length'' then JNum (int (length s))
           else case index_key (length s) k of Some i \<Rightarrow> JStr [s ! i] | None \<Rightarrow> JUndefined)"
| "js_get (JBool b) k = Some JUndefined"
| "js_get (JNum n) k = Some JUndefined"

text \<open>\<open>v.hasOwnProperty(k)\<close> for a value that is not \<open>undefined\<close> or \<open>null\<close>.\<close>

fun has_own :: "jsval \<Rightarrow> string \<Rightarrow> bool" where
  "has_own (JObj kvs) k = (k \<in> fst ` set kvs)"
| "has_own (JArr xs) k = (k = ''length'' \<or> index_key (length xs) k \<noteq> None)"
| "has_own (JStr s) k = (k = ''length'' \<or> index_key (length s) k \<noteq> None)"
| "has_own v k = False"

text \<open>
  The assignment \<open>v[k] = x\<close>, in strict mode (the hook is an ES module). On
  \<open>undefined\<close>, \<open>null\<close> and on a primitive it throws. On an array an index is
  written, extending the array when needed; a property with another name is set on the
  array object but is no element of it, and the array that is handed on is unchanged;
  the values written by this hook are objects, which \<open>length\<close> refuses.
\<close>

definition arr_set :: "jsval list \<Rightarrow> nat \<Rightarrow> jsval \<Rightarrow> jsval list" where
  "arr_set xs i v =
     (if i < length xs then xs[i := v]
      else xs @ replicate (i - length xs) JUndefined @ [v])"

definition arr_get :: "jsval list \<Rightarrow> nat \<Rightarrow> jsval" where
  "arr_get xs i = (if i < length xs then xs ! i else JUndefined)"

definition digits_only :: "string \<Rightarrow> bool" where
  "digits_only k = (k \<noteq> [] \<and> (\<forall>c \<in> set k. c \<in> set ''0123456789''))"

definition read_nat :: "string \<Rightarrow> nat" where
  "read_nat k = foldl (\<lambda>a c. 10 * a + (of_char c - 48)) 0 k"

definition array_index :: "string \<Rightarrow> nat option" where
  "array_index k =
     (if digits_only k \<and> show_nat (read_nat k) = k then Some (read_nat k) else None)"

fun set_prop :: "jsval \<Rightarrow> string \<Rightarrow> jsval \<Rightarrow> jsval option" where
  "set_prop (JObj kvs) k v = Some (JObj (AList.update k v kvs))"
| "set_prop (JArr xs) k v =
     (if k = ''length'' then None
      else case array_index k of
             Some i \<Rightarrow> Some (JArr (arr_set xs i v))
           | None \<Rightarrow> Some (JArr xs))"
| "set_prop w k v = None"

text \<open>
  \<open>delete v[k]\<close> in strict mode: it removes an own property of an object, leaves a hole
  in an array, throws on \<open>undefined\<close> and \<open>null\<close> and on the index and length
  properties of a string, and does nothing on a number or a boolean.
\<close>

fun del_prop :: "jsval \<Rightarrow> string \<Rightarrow> jsval option" where
  "del_prop (JObj kvs) k = Some (JObj (AList.delete k kvs))"
| "del_prop (JArr xs) k =
     (if k = ''length'' then None
      else case index_key (length xs) k of
             Some i \<Rightarrow> Some (JArr (xs[i := JUndefined]))
           | None \<Rightarrow> Some (JArr xs))"
| "del_prop (JStr s) k = (if has_own (JStr s) k then None else Some (JStr s))"
| "del_prop (JBool b) k = Some (JBool b)"
| "del_prop (JNum n) k = Some (JNum n)"
| "del_prop JUndefined k = None"
| "del_prop JNull k = None"

text \<open>
  The own enumerable properties that an object spread \<open>{...v}\<close> copies: those of an
  object, the elements of an array and the characters of a string under their indices,
  and nothing for any other value (spreading \<open>undefined\<close> does not throw).
\<close>

fun spread :: "jsval \<Rightarrow> props" where
  "spread (JObj kvs) = kvs"
| "spread (JArr xs) = zip (map show_nat [0..<length xs]) xs"
| "spread (JStr s) = zip (map show_nat [0..<length s]) (map (\<lambda>c. JStr [c]) s)"
| "spread v = []"

text \<open>\<open>obj_lit base ps\<close> is the object literal \<open>{...base, k1: v1, ..., kn: vn}\<close>: the
  later properties are written over the earlier ones, from left to right.\<close>

definition obj_lit :: "props \<Rightarrow> props \<Rightarrow> props" where
  "obj_lit base ps = fold (\<lambda>(k, v) acc. AList.update k v acc) ps base"

text \<open>\<open>Object.keys\<close> and \<open>Object.values\<close>; both throw on \<open>undefined\<close> and \<open>null\<close>.\<close>

definition obj_keys :: "jsval \<Rightarrow> string list option" where
  "obj_keys v = (if v = JUndefined \<or> v = JNull then None else Some (map fst (spread v)))"

definition obj_values :: "jsval \<Rightarrow> jsval list option" where
  "obj_values v = (if v = JUndefined \<or> v = JNull then None else Some (map snd (spread v)))"

text \<open>A value interpolated into a template literal: a string stays as it is,
  \<open>undefined\<close> reads \<open>undefined\<close>.\<close>

fun to_str :: "jsval \<Rightarrow> string"
  and join_strs :: "jsval list \<Rightarrow> string" where
  "to_str (JStr s) = s"
| "to_str JUndefined = ''undefined''"
| "to_str JNull = ''null''"
| "to_str (JBool b) = (if b then ''true'' else ''false'')"
| "to_str (JNum n) = show_int n"
| "to_str (JObj kvs) = ''[object Object]''"
| "to_str (JArr xs) = join_strs xs"
| "join_strs [] = []"
| "join_strs [x] = (if x = JUndefined \<or> x = JNull then [] else to_str x)"
| "join_strs (x # y # ys) =
     (if x = JUndefined \<or> x = JNull then [] else to_str x) @ '','' @ join_strs (y # ys)"


section \<open>The helpers the hook imports\<close>

text \<open>
  \<open>useField\<close> imports \<open>getNewFieldNumber\<close>, \<open>getOtherLocation\<close>,
  \<open>getSettingsDefaults\<close>, \<open>setCorrectOrderForFields\<close>, \<open>getFieldsAsArray\<close>,
  \<open>getFieldsAsObject\<close> and the constant \<open>DEFAULT_LOCATION\<close> from modules whose files
  are not part of the sources at hand. Each is defined here from its description in the
  specification.
\<close>

text \<open>Modelled from the spec: the constant \<open>DEFAULT_LOCATION\<close> of \<open>../constants\<close>,
  the default bucket of fields without a location (the primary editing surface).\<close>

definition DEFAULT_LOCATION :: string where
  "DEFAULT_LOCATION = ''editor''"

text \<open>Modelled from the spec: \<open>getOtherLocation\<close> (4.4 \<open>otherLocation\<close>), the
  complementary location in the two-location system editor and inspector.\<close>

definition getOtherLocation :: "string \<Rightarrow> string" where
  "getOtherLocation location = (if location = ''editor'' then ''inspector'' else ''editor'')"

text \<open>
  Modelled from the spec: \<open>getNewFieldNumber\<close> (4.3 \<open>nextIdentifier\<close>). It scans the keys
  of the collection for the base name and for \<open>base-n\<close>, and returns the smallest
  integer from 2 on whose identifier is not used, or a falsy sentinel (\<open>None\<close>) when the
  base name itself is free. The base defaults to \<open>new-field\<close>. Among \<open>length keys + 1\<close>
  candidates one is free, so the search is bounded by the number of keys. The callers
  pass the keys of the collection as \<open>Object.keys\<close> gives them, so that a collection
  that is \<open>undefined\<close> or \<open>null\<close> makes the call throw.
\<close>

definition suffixed :: "string \<Rightarrow> nat \<Rightarrow> string" where
  "suffixed base n = base @ ''-'' @ show_nat n"

fun first_free :: "string list \<Rightarrow> string \<Rightarrow> nat \<Rightarrow> nat \<Rightarrow> nat" where
  "first_free keys base n 0 = n"
| "first_free keys base n (Suc fuel) =
     (if suffixed base n \<in> set keys then first_free keys base (Suc n) fuel else n)"

definition getNewFieldNumber :: "string list \<Rightarrow> string option \<Rightarrow> nat option" where
  "getNewFieldNumber keys fieldName =
     (let base = (case fieldName of None \<Rightarrow> ''new-field'' | Some b \<Rightarrow> b)
      in if base \<in> set keys then Some (first_free keys base 2 (length keys)) else None)"

text \<open>
  Modelled from the spec: the control registry (section 6), a mapping from the control
  identifier to its descriptor \<open>{ name, type, defaultSettings? }\<close>, and
  \<open>getSettingsDefaults\<close> (4.6 \<open>defaultsFor\<close>), which returns the default settings the
  descriptor declares and the empty mapping for an unknown control.
\<close>

record control =
  ctl_name :: string
  ctl_type :: string
  ctl_defaultSettings :: "props option"

type_synonym controls = "(string \<times> control) list"

definition getSettingsDefaults :: "string \<Rightarrow> controls \<Rightarrow> props" where
  "getSettingsDefaults controlName cs =
     (case map_of cs controlName of
        None \<Rightarrow> []
      | Some c \<Rightarrow> (case ctl_defaultSettings c of None \<Rightarrow> [] | Some d \<Rightarrow> d))"

text \<open>
  Modelled from the spec: \<open>setCorrectOrderForFields\<close> (4.2 \<open>normalize\<close>). It returns a
  new sequence in which the \<open>order\<close> of each field is its index; the fields themselves
  are copied (\<open>{...field, order: index}\<close>), the input is not changed.
\<close>

fun set_orders_from :: "nat \<Rightarrow> jsval list \<Rightarrow> jsval list" where
  "set_orders_from i [] = []"
| "set_orders_from i (f # fs) =
     JObj (obj_lit (spread f) [(''order'', JNum (int i))]) # set_orders_from (Suc i) fs"

definition setCorrectOrderForFields :: "jsval list \<Rightarrow> jsval list" where
  "setCorrectOrderForFields fs = set_orders_from 0 fs"

text \<open>
  Modelled from the spec: \<open>getFieldsAsArray\<close> (4.1 \<open>toSequence\<close>). The keys are
  flattened away and the sequence follows the \<open>order\<close> attribute of the fields, not
  the iteration order of the mapping; fields of equal order stay in iteration order.
  The specification gives no rank to a field without a number as order; it counts as 0.
\<close>

definition order_key :: "jsval \<Rightarrow> int" where
  "order_key f = (case js_get f ''order'' of Some (JNum n) \<Rightarrow> n | _ \<Rightarrow> 0)"

definition getFieldsAsArray :: "jsval \<Rightarrow> jsval list option" where
  "getFieldsAsArray collection = map_option (sort_key order_key) (obj_values collection)"

text \<open>
  Modelled from the spec: \<open>getFieldsAsObject\<close> (4.1 \<open>toMapping\<close>). The result is keyed
  by the \<open>uniqueId\<close> of each field, by its \<open>name\<close> when it has no \<open>uniqueId\<close>; a field
  with neither is dropped without an error. A later field of the same key replaces the
  earlier one, as in any mapping.
\<close>

definition field_key :: "jsval \<Rightarrow> string option" where
  "field_key f =
     (case js_get f ''uniqueId'' of
        Some (JStr u) \<Rightarrow> Some u
      | _ \<Rightarrow> (case js_get f ''name'' of Some (JStr n) \<Rightarrow> Some n | _ \<Rightarrow> None))"

definition getFieldsAsObject :: "jsval list \<Rightarrow> props" where
  "getFieldsAsObject fs =
     fold (\<lambda>f acc. case field_key f of Some k \<Rightarrow> AList.update k f acc | None \<Rightarrow> acc) fs []"


section \<open>The hook \<open>useField\<close>\<close>

text \<open>
  \<open>block\<close> is the object \<open>fullBlock[ blockNameWithNameSpace ] || {}\<close>, given by its
  properties. A selected field is \<open>{ uniqueId, name, parent? }\<close> with strings as values;
  \<open>NoFieldSelected\<close> has none of the three. An absent property reads \<open>undefined\<close>,
  which as a property key or in a template literal is the string \<open>undefined\<close>.

  A function of the hook either throws (\<open>None\<close>), returns without a call
  (\<open>NoChange\<close>), or hands a new block to \<open>editBlock\<close> or \<open>changeBlock\<close>, which
  serialise it into the post content. The writes the source makes in place into the
  objects of \<open>block\<close> are the updates of the corresponding values here.
\<close>

record selector =
  sel_uniqueId :: "string option"
  sel_name :: "string option"
  sel_parent :: "string option"

datatype effect = NoChange | EditBlock props | ChangeBlock props

text \<open>The block that a call has handed over, if any.\<close>

definition persisted :: "effect \<Rightarrow> props option" where
  "persisted e =
     (case e of NoChange \<Rightarrow> None | EditBlock b \<Rightarrow> Some b | ChangeBlock b \<Rightarrow> Some b)"

definition opt_val :: "string option \<Rightarrow> jsval" where
  "opt_val s = (case s of None \<Rightarrow> JUndefined | Some x \<Rightarrow> JStr x)"

definition key_of :: "string option \<Rightarrow> string" where
  "key_of s = to_str (opt_val s)"

text \<open>The elements of an array on which \<open>filter\<close>, \<open>push\<close> or a spread is used; on
  \<open>null\<close> each of them throws.\<close>

fun arr_items :: "jsval \<Rightarrow> jsval list option" where
  "arr_items (JArr xs) = Some xs"
| "arr_items v = None"

fun filter_opt :: "('a \<Rightarrow> bool option) \<Rightarrow> 'a list \<Rightarrow> 'a list option" where
  "filter_opt p [] = Some []"
| "filter_opt p (x # xs) =
     do { b \<leftarrow> p x; ys \<leftarrow> filter_opt p xs; Some (if b then x # ys else ys) }"

text \<open>What a read of the hook returns in the block that a call has handed over.\<close>

definition after_edit :: "effect option \<Rightarrow> (props \<Rightarrow> 'a option) \<Rightarrow> 'a option" where
  "after_edit r f = (case r of None \<Rightarrow> None | Some e \<Rightarrow> (case persisted e of None \<Rightarrow> None | Some b \<Rightarrow> f b))"

subsection \<open>getFieldsForLocation\<close>

text \<open>\<open>block\<close> is an object, so \<open>! block\<close> is false and the first guard is the one on
  \<open>block.fields\<close>. The location asked for is any value: \<open>changeFieldLocation\<close> passes
  the \<open>location\<close> attribute of a field, which may be absent.\<close>

definition in_location :: "jsval \<Rightarrow> jsval \<Rightarrow> bool option" where
  "in_location location field =
     do { fl \<leftarrow> js_get field ''location'';
          Some (strict_eq location fl \<or>
                (\<not> truthy fl \<and> strict_eq (JStr DEFAULT_LOCATION) location)) }"

definition sub_fields_of :: "jsval \<Rightarrow> string \<Rightarrow> jsval option" where
  "sub_fields_of collection parent =
     do { pf \<leftarrow> js_get collection parent; js_get pf ''sub_fields'' }"

definition getFieldsForLocation :: "props \<Rightarrow> jsval \<Rightarrow> string option \<Rightarrow> jsval option" where
  "getFieldsForLocation block location parentField =
     (if \<not> truthy (own block ''fields'') then Some JNull
      else do {
        collection \<leftarrow> (case parentField of
                         None \<Rightarrow> Some (own block ''fields'')
                       | Some p \<Rightarrow> sub_fields_of (own block ''fields'') p);
        if \<not> truthy collection then Some JNull
        else do {
          xs \<leftarrow> getFieldsAsArray collection;
          ys \<leftarrow> filter_opt (in_location location) xs;
          Some (JArr ys) } })"

subsection \<open>getField\<close>

definition getField :: "props \<Rightarrow> selector option \<Rightarrow> jsval option" where
  "getField block selectedField =
     (case selectedField of
        None \<Rightarrow> Some (JObj [])
      | Some sel \<Rightarrow>
          if \<not> truthy (opt_val (sel_uniqueId sel)) then Some (JObj [])
          else if \<not> truthy (own block ''fields'') then Some (JObj [])
          else do {
            currentFields \<leftarrow>
              (if truthy (opt_val (sel_parent sel))
               then sub_fields_of (own block ''fields'') (key_of (sel_parent sel))
               else Some (own block ''fields''));
            js_get currentFields (key_of (sel_uniqueId sel)) })"

subsection \<open>addNewField\<close>

text \<open>\<open>set_sub_field c p k v\<close> is the write \<open>c[p].sub_fields[k] = v\<close>, and
  \<open>set_sub_fields c p v\<close> is \<open>c[p].sub_fields = v\<close>, seen from \<open>c\<close>.\<close>

definition set_sub_fields :: "jsval \<Rightarrow> string \<Rightarrow> jsval \<Rightarrow> jsval option" where
  "set_sub_fields collection parent v =
     do { pf \<leftarrow> js_get collection parent;
          pf' \<leftarrow> set_prop pf ''sub_fields'' v;
          set_prop collection parent pf' }"

definition set_sub_field :: "jsval \<Rightarrow> string \<Rightarrow> string \<Rightarrow> jsval \<Rightarrow> jsval option" where
  "set_sub_field collection parent k v =
     do { sf \<leftarrow> sub_fields_of collection parent;
          sf' \<leftarrow> set_prop sf k v;
          set_sub_fields collection parent sf' }"

definition block_fields :: "props \<Rightarrow> jsval" where
  \<comment> \<open>\<open>const { fields = {} } = block\<close>\<close>
  "block_fields block =
     (if own block ''fields'' = JUndefined then JObj [] else own block ''fields'')"

definition new_field_name :: "nat option \<Rightarrow> string" where
  "new_field_name newFieldNumber =
     (case newFieldNumber of
        Some n \<Rightarrow> ''new-field-'' @ show_nat n
      | None \<Rightarrow> ''new-field'')"

definition new_field_label :: "nat option \<Rightarrow> string" where
  \<comment> \<open>\<open>__\<close> is the identity in the source language of the plugin\<close>
  "new_field_label newFieldNumber =
     (case newFieldNumber of
        Some n \<Rightarrow> ''New Field '' @ show_nat n
      | None \<Rightarrow> ''New Field'')"

definition new_field :: "controls \<Rightarrow> nat option \<Rightarrow> string \<Rightarrow> nat \<Rightarrow> props" where
  \<comment> \<open>the object literal \<open>newField\<close>; \<open>siblings\<close> is \<open>Object.values( currentFields ).length\<close>\<close>
  "new_field cs newFieldNumber location siblings =
     obj_lit (getSettingsDefaults ''text'' cs)
       [(''name'', JStr (new_field_name newFieldNumber)),
        (''location'', JStr location),
        (''label'', JStr (new_field_label newFieldNumber)),
        (''control'', JStr ''text''),
        (''type'', JStr ''string''),
        (''order'', JNum (int siblings))]"

definition save_block :: "props \<Rightarrow> effect" where
  \<comment> \<open>a block without a name goes to \<open>changeBlock\<close>, any other to \<open>editBlock\<close>\<close>
  "save_block newBlock =
     (if \<not> truthy (own newBlock ''name'') then ChangeBlock newBlock else EditBlock newBlock)"

definition addNewField ::
  "controls \<Rightarrow> props \<Rightarrow> string \<Rightarrow> string option \<Rightarrow> (effect \<times> string) option" where
  "addNewField cs block location parentField =
     do {
       let fields0 = block_fields block;
       let fields1 = (case fields0 of JArr xs \<Rightarrow> JObj [] | _ \<Rightarrow> fields0);
       fields2 \<leftarrow>
         (case parentField of
            None \<Rightarrow> Some fields1
          | Some p \<Rightarrow>
              do { pf \<leftarrow> js_get fields1 p;
                   if truthy pf
                   then do { sf \<leftarrow> js_get pf ''sub_fields'';
                             if \<not> truthy sf then set_sub_fields fields1 p (JObj [])
                             else Some fields1 }
                   else Some fields1 });
       currentFields \<leftarrow>
         (case parentField of None \<Rightarrow> Some fields2 | Some p \<Rightarrow> sub_fields_of fields2 p);
       keys \<leftarrow> obj_keys currentFields;
       let newFieldNumber = getNewFieldNumber keys None;
       let newFieldName = new_field_name newFieldNumber;
       vals \<leftarrow> obj_values currentFields;
       let newField = new_field cs newFieldNumber location (length vals);
       fields3 \<leftarrow>
         (case parentField of
            Some p \<Rightarrow>
              set_sub_field fields2 p newFieldName
                (JObj (obj_lit newField [(''parent'', JStr p)]))
          | None \<Rightarrow> set_prop fields2 newFieldName (JObj newField));
       let newBlock = obj_lit block [(''fields'', fields3)];
       Some (save_block newBlock, newFieldName) }"

subsection \<open>changeControl\<close>

text \<open>
  \<open>controls\<close> is a plain object, so the read \<open>controls[ newControlName ]\<close> finds,
  besides the registered controls, the properties that every object inherits from
  \<open>Object.prototype\<close>. These are functions, and \<open>__proto__\<close> is the prototype object
  itself: all of them truthy, none with a \<open>type\<close>. The \<open>name\<close> of an inherited
  function is its property name, \<open>Object\<close> for \<open>constructor\<close>; the prototype object
  has no \<open>name\<close>. An inherited value is given by its \<open>name\<close>.
\<close>

definition inherited_functions :: "string list" where
  "inherited_functions =
     [''__defineGetter__'', ''__defineSetter__'', ''hasOwnProperty'', ''__lookupGetter__'',
      ''__lookupSetter__'', ''isPrototypeOf'', ''propertyIsEnumerable'', ''toString'',
      ''valueOf'', ''toLocaleString'']"

datatype registry_value = Registered control | Inherited jsval

definition controls_get :: "controls \<Rightarrow> string \<Rightarrow> registry_value option" where
  "controls_get cs k =
     (case map_of cs k of
        Some c \<Rightarrow> Some (Registered c)
      | None \<Rightarrow>
          if k = ''constructor'' then Some (Inherited (JStr ''Object''))
          else if k = ''__proto__'' then Some (Inherited JUndefined)
          else if k \<in> set inherited_functions then Some (Inherited (JStr k))
          else None)"

definition replacement_field ::
  "controls \<Rightarrow> control \<Rightarrow> jsval \<Rightarrow> jsval \<Rightarrow> jsval \<Rightarrow> jsval \<Rightarrow> props" where
  \<comment> \<open>the object literal \<open>newField\<close>, from the four attributes read from \<open>previousField\<close>\<close>
  "replacement_field cs newControl pname plabel plocation porder =
     obj_lit (getSettingsDefaults (ctl_name newControl) cs)
       [(''name'', pname),
        (''label'', plabel),
        (''location'', plocation),
        (''order'', porder),
        (''control'', JStr (ctl_name newControl)),
        (''type'', JStr (ctl_type newControl))]"

definition replacement_for ::
  "controls \<Rightarrow> registry_value \<Rightarrow> jsval \<Rightarrow> jsval \<Rightarrow> jsval \<Rightarrow> jsval \<Rightarrow> props" where
  \<comment> \<open>\<open>newField\<close> for whatever \<open>controls[ newControlName ]\<close> has found\<close>
  "replacement_for cs newControl pname plabel plocation porder =
     (case newControl of
        Registered c \<Rightarrow> replacement_field cs c pname plabel plocation porder
      | Inherited n \<Rightarrow>
          obj_lit (getSettingsDefaults (to_str n) cs)
            [(''name'', pname),
             (''label'', plabel),
             (''location'', plocation),
             (''order'', porder),
             (''control'', n),
             (''type'', JUndefined)])"

definition changeControl :: "controls \<Rightarrow> props \<Rightarrow> selector \<Rightarrow> string \<Rightarrow> effect option" where
  "changeControl cs block fieldToChange newControlName =
     (case controls_get cs newControlName of
        None \<Rightarrow> Some NoChange
      | Some newControl \<Rightarrow>
          if \<not> truthy (opt_val (sel_name fieldToChange)) then Some NoChange
          else do {
            let hasParent = (sel_parent fieldToChange \<noteq> None);
            let name = key_of (sel_name fieldToChange);
            let parent = key_of (sel_parent fieldToChange);
            previousField \<leftarrow>
              (if hasParent
               then do { sf \<leftarrow> sub_fields_of (own block ''fields'') parent; js_get sf name }
               else js_get (own block ''fields'') name);
            pname \<leftarrow> js_get previousField ''name'';
            plabel \<leftarrow> js_get previousField ''label'';
            plocation \<leftarrow> js_get previousField ''location'';
            porder \<leftarrow> js_get previousField ''order'';
            let newField = replacement_for cs newControl pname plabel plocation porder;
            fields' \<leftarrow>
              (if hasParent
               then set_sub_field (own block ''fields'') parent name
                      (JObj (obj_lit newField [(''parent'', JStr parent)]))
               else set_prop (own block ''fields'') name (JObj newField));
            Some (EditBlock (obj_lit block [(''fields'', fields')])) })"

subsection \<open>changeFieldName\<close>

text \<open>
  \<open>newFields\<close> is a shallow copy, so the field under the previous id is shared with
  \<open>fields\<close>: the new \<open>sub_fields\<close> written into it are read back through
  \<open>fieldToRename\<close> when the renamed field is built. The entry under the previous id is
  deleted at the end. The default of the second parameter of \<open>getNewFieldNumber\<close>
  applies when the new name is \<open>undefined\<close>.
\<close>

definition reparent :: "jsval \<Rightarrow> jsval \<Rightarrow> jsval" where
  \<comment> \<open>the callback \<open>( subField ) => ( { ...subField, parent: newName } )\<close>\<close>
  "reparent newName subField = JObj (obj_lit (spread subField) [(''parent'', newName)])"

definition changeFieldName :: "jsval \<Rightarrow> string \<Rightarrow> jsval \<Rightarrow> props option" where
  "changeFieldName collection previousUniqueId newName =
     do {
       let newFields = spread collection;
       keys \<leftarrow> obj_keys collection;
       let newFieldNumber =
         getNewFieldNumber keys (if newName = JUndefined then None else Some (to_str newName));
       let newFieldUniqueId =
         (case newFieldNumber of
            Some n \<Rightarrow> JStr (suffixed (to_str newName) n)
          | None \<Rightarrow> newName);
       let fieldToRename = own newFields previousUniqueId;
       fieldToRename' \<leftarrow>
         (if truthy fieldToRename \<and> has_own fieldToRename ''sub_fields''
          then do {
            sf \<leftarrow> js_get fieldToRename ''sub_fields'';
            vals \<leftarrow> obj_values sf;
            set_prop fieldToRename ''sub_fields''
              (JObj (getFieldsAsObject (map (reparent newName) vals))) }
          else Some fieldToRename);
       let renamed = JObj (obj_lit (spread fieldToRename')
                             [(''name'', newName), (''uniqueId'', newFieldUniqueId)]);
       Some (AList.delete previousUniqueId
               (AList.update (to_str newFieldUniqueId) renamed newFields)) }"

text \<open>The key \<open>newFieldUniqueId\<close> under which \<open>changeFieldName\<close> stores a field
  renamed to the string \<open>newName\<close>, in a collection with the given keys.\<close>

definition new_id :: "string list \<Rightarrow> string \<Rightarrow> string" where
  "new_id keys newName =
     (case getNewFieldNumber keys (Some newName) of
        Some n \<Rightarrow> suffixed newName n
      | None \<Rightarrow> newName)"

text \<open>The field that \<open>changeFieldName\<close> stores for a field with properties
  \<open>fprops\<close> whose \<open>sub_fields\<close> have the values \<open>vals\<close>.\<close>

definition renamed_field :: "props \<Rightarrow> jsval list \<Rightarrow> string \<Rightarrow> string \<Rightarrow> props" where
  "renamed_field fprops vals nn nid =
     obj_lit (AList.update ''sub_fields''
                (JObj (getFieldsAsObject (map (reparent (JStr nn)) vals))) fprops)
       [(''name'', JStr nn), (''uniqueId'', JStr nid)]"

subsection \<open>changeFieldLocation\<close>

text \<open>The fields of the two locations are read from \<open>block\<close>, the field to move from
  the collection passed in, under the name of the selected field.\<close>

definition changeFieldLocation :: "props \<Rightarrow> jsval \<Rightarrow> selector \<Rightarrow> jsval \<Rightarrow> props option" where
  "changeFieldLocation block collection selectedField newLocation =
     do {
       fieldToMove \<leftarrow> js_get collection (key_of (sel_name selectedField));
       previousLocation \<leftarrow> js_get fieldToMove ''location'';
       plf \<leftarrow> getFieldsForLocation block previousLocation None;
       previousLocationFields \<leftarrow> arr_items plf;
       fieldsWithoutMovedField \<leftarrow>
         filter_opt
           (\<lambda>field. do { n \<leftarrow> js_get field ''name'';
                         Some (\<not> strict_eq n (opt_val (sel_name selectedField))) })
           previousLocationFields;
       nlf \<leftarrow> getFieldsForLocation block newLocation None;
       newLocationFields \<leftarrow> arr_items nlf;
       Some (getFieldsAsObject
               (setCorrectOrderForFields fieldsWithoutMovedField @
                setCorrectOrderForFields (newLocationFields @ [fieldToMove]))) }"

subsection \<open>changeFieldSettings\<close>

text \<open>
  \<open>merge_settings\<close> is the function from \<open>const hasParent\<close> on: the shallow merge of
  the new settings into the current field of \<open>newBlock.fields\<close>, the rename when the
  settings have a \<open>name\<close>, and the call of \<open>editBlock\<close>. \<open>changeFieldSettings\<close> first
  replaces \<open>newBlock.fields\<close> by the result of \<open>changeFieldLocation\<close> when the settings
  have a \<open>location\<close>.
\<close>

definition merge_settings :: "props \<Rightarrow> jsval \<Rightarrow> selector \<Rightarrow> props \<Rightarrow> effect option" where
  "merge_settings block fields1 fieldToChange newSettings =
     do {
       let hasParent = (sel_parent fieldToChange \<noteq> None);
       let parent = key_of (sel_parent fieldToChange);
       let uniqueId = key_of (sel_uniqueId fieldToChange);
       currentField \<leftarrow>
         (if hasParent
          then do { sf \<leftarrow> sub_fields_of fields1 parent; js_get sf uniqueId }
          else js_get fields1 uniqueId);
       let newField = JObj (obj_lit (spread currentField) newSettings);
       fields2 \<leftarrow>
         (if hasParent then set_sub_field fields1 parent uniqueId newField
          else set_prop fields1 uniqueId newField);
       fields3 \<leftarrow>
         (if has_own (JObj newSettings) ''name''
          then (if hasParent
                then do { sf \<leftarrow> sub_fields_of fields2 parent;
                          sf' \<leftarrow> changeFieldName sf uniqueId (own newSettings ''name'');
                          set_sub_fields fields2 parent (JObj sf') }
                else map_option JObj
                       (changeFieldName fields2 uniqueId (own newSettings ''name'')))
          else Some fields2);
       Some (EditBlock (obj_lit block [(''fields'', fields3)])) }"

definition changeFieldSettings :: "props \<Rightarrow> selector \<Rightarrow> props \<Rightarrow> effect option" where
  "changeFieldSettings block fieldToChange newSettings =
     do {
       fields1 \<leftarrow>
         (if has_own (JObj newSettings) ''location''
          then map_option JObj
                 (changeFieldLocation block (own block ''fields'') fieldToChange
                    (own newSettings ''location''))
          else Some (own block ''fields''));
       merge_settings block fields1 fieldToChange newSettings }"

subsection \<open>deleteField\<close>

definition deleteField :: "props \<Rightarrow> selector \<Rightarrow> effect option" where
  "deleteField block selectedField =
     do {
       let collection = own block ''fields'';
       let parent = key_of (sel_parent selectedField);
       let name = key_of (sel_name selectedField);
       nested \<leftarrow>
         (if sel_parent selectedField \<noteq> None
          then do { pf \<leftarrow> js_get collection parent;
                    if truthy pf
                    then do { sf \<leftarrow> js_get pf ''sub_fields''; Some (truthy sf) }
                    else Some False }
          else Some False);
       fields' \<leftarrow>
         (if nested
          then do { sf \<leftarrow> sub_fields_of collection parent;
                    sf' \<leftarrow> del_prop sf name;
                    set_sub_fields collection parent sf' }
          else del_prop collection name);
       Some (EditBlock (obj_lit block [(''fields'', fields')])) }"

subsection \<open>duplicateField\<close>

text \<open>
  \<open>newFieldNumber.toString()\<close> is called on whatever \<open>getNewFieldNumber\<close> returns.
  Its falsy sentinel, returned when no field has the selected name as key, is no
  number; it is taken to be \<open>null\<close>, on which the call throws.
\<close>

definition duplicateField :: "props \<Rightarrow> selector \<Rightarrow> effect option" where
  "duplicateField block selectedField =
     do {
       let collection = block_fields block;
       currentField \<leftarrow> getField block (Some selectedField);
       let hasParent = (sel_parent selectedField \<noteq> None);
       let parent = key_of (sel_parent selectedField);
       currentFields \<leftarrow>
         (if hasParent then sub_fields_of collection parent else Some collection);
       keys \<leftarrow> obj_keys currentFields;
       newFieldNumber \<leftarrow> getNewFieldNumber keys (sel_name selectedField);
       let newFieldName = suffixed (key_of (sel_name selectedField)) newFieldNumber;
       vals \<leftarrow> obj_values collection;
       currentFields' \<leftarrow>
         set_prop currentFields newFieldName
           (JObj (obj_lit (spread currentField)
                    [(''name'', JStr newFieldName), (''order'', JNum (int (length vals)))]));
       fields' \<leftarrow>
         (if hasParent then set_sub_fields collection parent currentFields'
          else Some currentFields');
       Some (EditBlock (obj_lit block [(''fields'', fields')])) }"

subsection \<open>reorderFields\<close>

text \<open>
  The destructuring assignment reads both elements first and then writes them to the
  other index. An index beyond the end reads \<open>undefined\<close> and its write extends the
  array.
\<close>

definition swap_items :: "jsval list \<Rightarrow> nat \<Rightarrow> nat \<Rightarrow> jsval list" where
  "swap_items xs moveFrom moveTo =
     arr_set (arr_set xs moveFrom (arr_get xs moveTo)) moveTo (arr_get xs moveFrom)"

definition reorderFields :: "props \<Rightarrow> nat \<Rightarrow> nat \<Rightarrow> string \<Rightarrow> string option \<Rightarrow> effect option" where
  "reorderFields block moveFrom moveTo currentLocation parentField =
     do {
       ftr \<leftarrow> getFieldsForLocation block (JStr currentLocation) parentField;
       len \<leftarrow> js_get ftr ''length'';
       if \<not> truthy len then Some NoChange
       else do {
         fieldsToReorder \<leftarrow> arr_items ftr;
         let newFields = swap_items fieldsToReorder moveFrom moveTo;
         fields' \<leftarrow>
           (case parentField of
              Some p \<Rightarrow>
                set_sub_fields (own block ''fields'') p
                  (JObj (getFieldsAsObject (setCorrectOrderForFields newFields)))
            | None \<Rightarrow>
                do { olf \<leftarrow> getFieldsForLocation block
                               (JStr (getOtherLocation currentLocation)) None;
                     others \<leftarrow> arr_items olf;
                     Some (JObj (getFieldsAsObject
                                   (setCorrectOrderForFields newFields @ others))) });
         Some (EditBlock (obj_lit block [(''fields'', fields')])) } }"


section \<open>Collections of fields\<close>

text \<open>
  A collection is well formed when its keys are distinct, every entry is an object,
  and the key of an entry is the identifier \<open>getFieldsAsObject\<close> uses for it: its
  \<open>uniqueId\<close>, or its \<open>name\<close> when it has no \<open>uniqueId\<close>. \<open>location_fields\<close> is the
  sequence of the fields of a location, in the order of their \<open>order\<close>.
\<close>

fun is_object :: "jsval \<Rightarrow> bool" where
  "is_object (JObj kvs) = True"
| "is_object v = False"

definition wf_collection :: "props \<Rightarrow> bool" where
  "wf_collection kvs =
     (distinct (map fst kvs) \<and> list_all (\<lambda>(k, v). is_object v \<and> field_key v = Some k) kvs)"

definition location_fields :: "jsval \<Rightarrow> props \<Rightarrow> jsval list" where
  "location_fields location kvs =
     filter (\<lambda>f. in_location location f = Some True) (sort_key order_key (map snd kvs))"






definition named :: "string \<Rightarrow> selector" where
  "named nm = \<lparr>sel_uniqueId = Some nm, sel_name = Some nm, sel_parent = None\<rparr>"

section \<open>Example blocks\<close>

text \<open>Concrete registries, blocks and selections on which the functions are evaluated.\<close>

definition text_registry :: controls where
  "text_registry =
     [(''text'', \<lparr>ctl_name = ''text'', ctl_type = ''string'',
                  ctl_defaultSettings = Some [(''help'', JStr []), (''maxlength'', JNull)]\<rparr>)]"

definition first_new_field :: props where
  "first_new_field =
     [(''help'', JStr []), (''maxlength'', JNull), (''name'', JStr ''new-field''),
      (''location'', JStr ''editor''), (''label'', JStr ''New Field''),
      (''control'', JStr ''text''), (''type'', JStr ''string''), (''order'', JNum 0)]"

definition one_field_block :: props where
  "one_field_block =
     [(''name'', JStr ''blk''), (''fields'', JObj [(''new-field'', JObj first_new_field)])]"

definition repeater_block :: props where
  "repeater_block =
     [(''name'', JStr ''blk''),
      (''fields'', JObj [(''r'', JObj [(''name'', JStr ''r''), (''control'', JStr ''repeater''),
                                     (''order'', JNum 0), (''sub_fields'', JObj [])])])]"

definition editor_controls :: controls where
  "editor_controls =
     [(''text'', \<lparr>ctl_name = ''text'', ctl_type = ''string'',
                  ctl_defaultSettings = Some [(''help'', JStr []), (''maxlength'', JNull)]\<rparr>),
      (''image'', \<lparr>ctl_name = ''image'', ctl_type = ''integer'',
                   ctl_defaultSettings = Some [(''help'', JStr [])]\<rparr>),
      (''repeater'', \<lparr>ctl_name = ''repeater'', ctl_type = ''object'',
                      ctl_defaultSettings = None\<rparr>)]"

definition title_field :: props where
  "title_field =
     [(''name'', JStr ''title''), (''label'', JStr ''Title''), (''control'', JStr ''text''),
      (''type'', JStr ''string''), (''location'', JStr ''editor''), (''order'', JNum 0),
      (''placeholder'', JStr ''Type'')]"

definition title_block :: props where
  "title_block = [(''name'', JStr ''blk''), (''fields'', JObj [(''title'', JObj title_field)])]"

definition sel_title :: selector where
  "sel_title = \<lparr>sel_uniqueId = Some ''title'', sel_name = Some ''title'', sel_parent = None\<rparr>"

definition cell_field :: props where
  "cell_field =
     [(''name'', JStr ''cell''), (''label'', JStr ''Cell''), (''control'', JStr ''text''),
      (''type'', JStr ''string''), (''location'', JStr ''editor''), (''order'', JNum 0),
      (''parent'', JStr ''rows'')]"

definition rows_field :: props where
  "rows_field =
     [(''name'', JStr ''rows''), (''label'', JStr ''Rows''), (''control'', JStr ''repeater''),
      (''type'', JStr ''object''), (''location'', JStr ''editor''), (''order'', JNum 0),
      (''uniqueId'', JStr ''rows''), (''sub_fields'', JObj [(''cell'', JObj cell_field)])]"

definition rows_block :: props where
  "rows_block = [(''name'', JStr ''blk''), (''fields'', JObj [(''rows'', JObj rows_field)])]"

definition sel_cell :: selector where
  "sel_cell = \<lparr>sel_uniqueId = Some ''cell'', sel_name = Some ''cell'', sel_parent = Some ''rows''\<rparr>"

definition sel_rows :: selector where
  "sel_rows = \<lparr>sel_uniqueId = Some ''rows'', sel_name = Some ''rows'', sel_parent = None\<rparr>"

definition sel_ghost :: selector where
  "sel_ghost = \<lparr>sel_uniqueId = Some ''ghost'', sel_name = Some ''ghost'', sel_parent = None\<rparr>"

definition sel_orphan :: selector where
  "sel_orphan = \<lparr>sel_uniqueId = Some ''cell'', sel_name = Some ''cell'', sel_parent = Some ''ghost''\<rparr>"

definition sel_under_title :: selector where
  "sel_under_title = \<lparr>sel_uniqueId = Some ''cell'', sel_name = Some ''cell'', sel_parent = Some ''title''\<rparr>"

definition note_field :: props where
  "note_field =
     [(''name'', JStr ''note''), (''label'', JStr ''Note''), (''control'', JStr ''text''),
      (''type'', JStr ''string''), (''location'', JStr ''editor''), (''order'', JNum 1),
      (''parent'', JStr ''rows'')]"

definition grid_block :: props where
  "grid_block =
     [(''name'', JStr ''blk''),
      (''fields'', JObj [(''rows'',
         JObj [(''name'', JStr ''rows''), (''label'', JStr ''Rows''), (''control'', JStr ''repeater''),
               (''type'', JStr ''object''), (''location'', JStr ''editor''), (''order'', JNum 0),
               (''sub_fields'', JObj [(''cell'', JObj cell_field), (''note'', JObj note_field)])])])]"

definition page_fields :: props where
  "page_fields = [(''title'', JObj title_field), (''rows'', JObj rows_field)]"

definition scenario1_block :: props where
  "scenario1_block =
     [(''name'', JStr ''blk''),
      (''fields'', JObj [(''a'', JObj [(''name'', JStr ''a''), (''order'', JNum 0)]),
                        (''b'', JObj [(''name'', JStr ''b''), (''order'', JNum 1)])])]"

definition x_field :: props where
  "x_field = [(''name'', JStr ''x''), (''location'', JStr ''editor''), (''order'', JNum 0)]"

definition y_field :: props where
  "y_field = [(''name'', JStr ''y''), (''location'', JStr ''editor''), (''order'', JNum 1)]"

definition z_field :: props where
  "z_field = [(''name'', JStr ''z''), (''location'', JStr ''inspector''), (''order'', JNum 0)]"

definition three_fields :: props where
  "three_fields = [(''x'', JObj x_field), (''y'', JObj y_field), (''z'', JObj z_field)]"

definition three_block :: props where
  "three_block = [(''name'', JStr ''blk''), (''fields'', JObj three_fields)]"

definition grid_sub_fields :: props where
  "grid_sub_fields = [(''cell'', JObj cell_field), (''note'', JObj note_field)]"

definition grid_rows :: props where
  "grid_rows =
     [(''name'', JStr ''rows''), (''label'', JStr ''Rows''), (''control'', JStr ''repeater''),
      (''type'', JStr ''object''), (''location'', JStr ''editor''), (''order'', JNum 0),
      (''sub_fields'', JObj grid_sub_fields)]"


definition u_field :: props where
  "u_field = [(''name'', JStr ''u''), (''uniqueId'', JStr ''u''), (''location'', JStr ''editor''),
              (''order'', JNum 0)]"

definition v_field :: props where
  "v_field = [(''name'', JStr ''v''), (''uniqueId'', JStr ''v''), (''location'', JStr ''editor''),
              (''order'', JNum 1)]"

definition uv_block :: props where
  "uv_block = [(''name'', JStr ''blk''), (''fields'', JObj [(''u'', JObj u_field), (''v'', JObj v_field)])]"

definition sel_u :: selector where
  "sel_u = \<lparr>sel_uniqueId = Some ''u'', sel_name = Some ''u'', sel_parent = None\<rparr>"


definition uv_cloned_block :: props where
  "uv_cloned_block =
     [(''name'', JStr ''blk''),
      (''fields'', JObj [(''u'', JObj u_field), (''v'', JObj v_field),
                        (''u-2'', JObj [(''name'', JStr ''u-2''), (''uniqueId'', JStr ''u''),
                                        (''location'', JStr ''editor''), (''order'', JNum 2)])])]"

definition blank_block :: props where
  "blank_block =
     [(''name'', JStr ''blk''),
      (''fields'', JObj [(''a'', JObj [(''name'', JStr ''a''), (''location'', JStr []), (''order'', JNum 0)]),
                        (''b'', JObj [(''name'', JStr ''b''), (''location'', JStr []), (''order'', JNum 1)])])]"





section \<open>Properties of the helpers\<close>

subsection \<open>The identifier allocator\<close>

lemma of_char_digit_char: "d < 10 \<Longrightarrow> of_char (digit_char d) - 48 = (d::nat)"
  by (simp add: digit_char_def)

lemma read_nat_snoc: "read_nat (s @ [c]) = 10 * read_nat s + (of_char c - 48)"
  by (simp add: read_nat_def)

lemma read_show_nat: "read_nat (show_nat n) = n"
proof (induction n rule: show_nat.induct)
  case (1 n)
  show ?case
  proof (cases "n < 10")
    case True
    then show ?thesis
      by (subst show_nat.simps) (simp add: read_nat_def of_char_digit_char)
  next
    case False
    then have "read_nat (show_nat (n div 10)) = n div 10" using 1 by simp
    with False show ?thesis
      by (subst show_nat.simps) (simp add: read_nat_snoc of_char_digit_char)
  qed
qed

lemma show_nat_inj: "show_nat m = show_nat n \<Longrightarrow> m = n"
  by (metis read_show_nat)

lemma suffixed_inj: "suffixed b m = suffixed b n \<Longrightarrow> m = n"
  by (simp add: suffixed_def show_nat_inj)

lemma first_free_ge: "n \<le> first_free keys base n fuel"
proof (induction fuel arbitrary: n)
  case 0 show ?case by simp
next
  case (Suc fuel)
  have "Suc n \<le> first_free keys base (Suc n) fuel" by (rule Suc.IH)
  then show ?case by simp
qed

lemma first_free_fresh_aux:
  "card (set keys \<inter> suffixed base ` {n..}) \<le> fuel \<Longrightarrow>
   suffixed base (first_free keys base n fuel) \<notin> set keys"
proof (induction fuel arbitrary: n)
  case 0
  then have "set keys \<inter> suffixed base ` {n..} = {}" by simp
  then show ?case by auto
next
  case (Suc fuel)
  show ?case
  proof (cases "suffixed base n \<in> set keys")
    case False then show ?thesis by simp
  next
    case True
    have notin: "suffixed base n \<notin> suffixed base ` {Suc n..}"
      using suffixed_inj by fastforce
    have sub: "set keys \<inter> suffixed base ` {Suc n..} \<subseteq> (set keys \<inter> suffixed base ` {n..}) - {suffixed base n}"
      by (auto dest!: suffixed_inj)
    have mem: "suffixed base n \<in> set keys \<inter> suffixed base ` {n..}" using True by auto
    have "card ((set keys \<inter> suffixed base ` {n..}) - {suffixed base n}) < card (set keys \<inter> suffixed base ` {n..})"
      using mem by (intro card_Diff1_less) auto
    moreover have "card (set keys \<inter> suffixed base ` {Suc n..}) \<le> card ((set keys \<inter> suffixed base ` {n..}) - {suffixed base n})"
      by (rule card_mono[OF _ sub]) simp
    ultimately have "card (set keys \<inter> suffixed base ` {Suc n..}) \<le> fuel" using Suc.prems by linarith
    then have "suffixed base (first_free keys base (Suc n) fuel) \<notin> set keys" by (rule Suc.IH)
    with True show ?thesis by simp
  qed
qed

lemma first_free_fresh: "suffixed base (first_free keys base n (length keys)) \<notin> set keys"
proof (rule first_free_fresh_aux)
  have "card (set keys \<inter> suffixed base ` {n..}) \<le> card (set keys)"
    by (rule card_mono) auto
  also have "\<dots> \<le> length keys" by (rule card_length)
  finally show "card (set keys \<inter> suffixed base ` {n..}) \<le> length keys" .
qed

lemma getNewFieldNumber_cases:
  "getNewFieldNumber keys (Some b) = None \<longleftrightarrow> b \<notin> set keys"
  by (simp add: getNewFieldNumber_def)

lemma getNewFieldNumber_Some:
  "getNewFieldNumber keys (Some b) = Some n \<Longrightarrow> b \<in> set keys \<and> 2 \<le> n \<and> suffixed b n \<notin> set keys"
  by (auto simp: getNewFieldNumber_def first_free_ge first_free_fresh split: if_splits)


subsection \<open>Objects\<close>

lemma own_update: "own (AList.update k v kvs) k' = (if k' = k then v else own kvs k')"
  by (simp add: own_def update_conv')

lemma own_delete: "own (AList.delete k kvs) k' = (if k' = k then JUndefined else own kvs k')"
  by (simp add: own_def delete_conv')

lemma own_Nil: "own [] k = JUndefined"
  by (simp add: own_def)

lemma own_defined_map_of: "own kvs k = v \<Longrightarrow> v \<noteq> JUndefined \<Longrightarrow> map_of kvs k = Some v"
  by (auto simp: own_def split: option.splits)

lemma own_defined_key: "own kvs k \<noteq> JUndefined \<Longrightarrow> k \<in> fst ` set kvs"
  by (auto simp: own_def split: option.splits dest: map_of_SomeD intro: rev_image_eqI)

lemma own_absent: "k \<notin> fst ` set kvs \<Longrightarrow> own kvs k = JUndefined"
  by (simp add: own_def map_of_eq_None_iff[THEN iffD2])

lemma update_own_same: "own kvs k = v \<Longrightarrow> v \<noteq> JUndefined \<Longrightarrow> AList.update k v kvs = kvs"
  by (rule update_triv) (rule own_defined_map_of)

lemma obj_keys_JObj: "obj_keys (JObj kvs) = Some (map fst kvs)"
  by (simp add: obj_keys_def)

lemma obj_values_JObj: "obj_values (JObj kvs) = Some (map snd kvs)"
  by (simp add: obj_values_def)

lemma persisted_simps:
  "persisted (EditBlock b) = Some b" "persisted (ChangeBlock b) = Some b" "persisted NoChange = None"
  by (simp_all add: persisted_def)

lemma obj_lit_one: "obj_lit base [(k, v)] = AList.update k v base"
  by (simp add: obj_lit_def)

lemma sub_fields_of_JObj:
  "own kvs p = JObj pf \<Longrightarrow> sub_fields_of (JObj kvs) p = Some (own pf ''sub_fields'')"
  by (simp add: sub_fields_of_def)

lemma set_sub_fields_JObj:
  "own kvs p = JObj pf \<Longrightarrow>
   set_sub_fields (JObj kvs) p v = Some (JObj (AList.update p (JObj (AList.update ''sub_fields'' v pf)) kvs))"
  by (simp add: set_sub_fields_def)

lemma set_sub_field_JObj:
  "own kvs p = JObj pf \<Longrightarrow> own pf ''sub_fields'' = JObj sfs \<Longrightarrow>
   set_sub_field (JObj kvs) p k v =
     Some (JObj (AList.update p (JObj (AList.update ''sub_fields'' (JObj (AList.update k v sfs)) pf)) kvs))"
  by (simp add: set_sub_field_def sub_fields_of_JObj set_sub_fields_JObj)

lemma key_of_Some: "key_of (Some s) = s"
  by (simp add: key_of_def opt_val_def)

lemma truthy_opt_val: "truthy (opt_val s) \<longleftrightarrow> (\<exists>x. s = Some x \<and> x \<noteq> [])"
  by (cases s) (simp_all add: opt_val_def)

lemma after_edit_EditBlock: "after_edit (Some (EditBlock b)) f = f b"
  by (simp add: after_edit_def persisted_def)

lemma own_fields_update: "own (AList.update ''fields'' v block) ''fields'' = v"
  by (simp add: own_update)

lemma getField_top:
  "sel_uniqueId sel = Some u \<Longrightarrow> u \<noteq> [] \<Longrightarrow> sel_parent sel = None \<Longrightarrow>
   own block ''fields'' = JObj kvs \<Longrightarrow> getField block (Some sel) = Some (own kvs u)"
  by (simp add: getField_def opt_val_def key_of_def)

lemma getField_nested:
  "sel_uniqueId sel = Some u \<Longrightarrow> u \<noteq> [] \<Longrightarrow> sel_parent sel = Some p \<Longrightarrow> p \<noteq> [] \<Longrightarrow>
   own block ''fields'' = JObj kvs \<Longrightarrow> own kvs p = JObj pf \<Longrightarrow> own pf ''sub_fields'' = JObj sfs \<Longrightarrow>
   getField block (Some sel) = Some (own sfs u)"
  by (simp add: getField_def opt_val_def key_of_def sub_fields_of_JObj)

section \<open>addNewField\<close>

lemma addNewField_top:
  assumes "own block ''fields'' = JObj kvs"
  shows "addNewField cs block location None =
           Some (save_block (AList.update ''fields'' (JObj (AList.update
               (new_field_name (getNewFieldNumber (map fst kvs) None))
               (JObj (new_field cs (getNewFieldNumber (map fst kvs) None) location (length kvs))) kvs)) block),
             new_field_name (getNewFieldNumber (map fst kvs) None))"
  using assms
  by (simp add: addNewField_def block_fields_def obj_keys_JObj obj_values_JObj obj_lit_one Let_def)

lemma addNewField_empty:
  assumes "own block ''fields'' = JUndefined \<or> own block ''fields'' = JArr xs"
  shows "addNewField cs block location None =
           Some (save_block (AList.update ''fields''
                   (JObj [(''new-field'', JObj (new_field cs None location 0))]) block),
                 ''new-field'')"
  using assms
  by (auto simp add: addNewField_def block_fields_def obj_keys_JObj obj_values_JObj obj_lit_one Let_def
      getNewFieldNumber_def new_field_name_def)

lemma addNewField_nested:
  assumes "own block ''fields'' = JObj kvs" "own kvs p = JObj pf" "own pf ''sub_fields'' = JObj sfs"
  shows "addNewField cs block location (Some p) =
           Some (save_block (AList.update ''fields''
              (JObj (AList.update p (JObj (AList.update ''sub_fields'' (JObj (AList.update
               (new_field_name (getNewFieldNumber (map fst sfs) None))
               (JObj (AList.update ''parent'' (JStr p) (new_field cs (getNewFieldNumber (map fst sfs) None) location (length sfs)))) sfs)) pf)) kvs)) block),
              new_field_name (getNewFieldNumber (map fst sfs) None))"
  using assms
  by (simp add: addNewField_def block_fields_def obj_keys_JObj obj_values_JObj obj_lit_one Let_def
      sub_fields_of_JObj set_sub_field_JObj)

lemma new_field_attrs:
  "own (new_field cs n location k) ''name'' = JStr (new_field_name n)"
  "own (new_field cs n location k) ''location'' = JStr location"
  "own (new_field cs n location k) ''label'' = JStr (new_field_label n)"
  "own (new_field cs n location k) ''control'' = JStr ''text''"
  "own (new_field cs n location k) ''type'' = JStr ''string''"
  "own (new_field cs n location k) ''order'' = JNum (int k)"
  by (simp_all add: new_field_def obj_lit_def own_update)

lemma new_field_seeded:
  "a \<notin> {''name'', ''location'', ''label'', ''control'', ''type'', ''order''} \<Longrightarrow>
   own (new_field cs n location k) a = own (getSettingsDefaults ''text'' cs) a"
  by (simp add: new_field_def obj_lit_def own_update)

lemma new_field_name_fresh: "new_field_name (getNewFieldNumber keys None) \<notin> set keys"
  using first_free_fresh[of "''new-field''" keys 2]
  by (cases "''new-field'' \<in> set keys") (simp_all add: new_field_name_def getNewFieldNumber_def suffixed_def)


text \<open>
  C8. \<open>addNewField(location, null)\<close> on a collection of fields adds, under a name
  that no field of the collection has, the field built from the defaults of the
  control \<open>text\<close>, with the given location and with the number of fields of the
  collection as \<open>order\<close>, and returns that name; with a parent the same happens in
  the \<open>sub_fields\<close> of the parent, and the field gets \<open>parent\<close>. On a block without
  fields (none stored, or the legacy empty array) the field is \<open>new-field\<close> with order
  0. When \<open>new-field\<close> is taken the allocator returns 2 and the name is
  \<open>new-field-2\<close>. Every attribute other than the six written by \<open>addNewField\<close> is
  the default of the control.
\<close>

theorem addNewField_seeds_new_field:
  "(own block ''fields'' = JObj kvs \<longrightarrow>
      addNewField cs block location None =
        Some (save_block (AList.update ''fields'' (JObj (AList.update
                (new_field_name (getNewFieldNumber (map fst kvs) None))
                (JObj (new_field cs (getNewFieldNumber (map fst kvs) None) location (length kvs)))
                kvs)) block),
              new_field_name (getNewFieldNumber (map fst kvs) None)))
   \<and> (own block ''fields'' = JUndefined \<or> own block ''fields'' = JArr xs \<longrightarrow>
      addNewField cs block location None =
        Some (save_block (AList.update ''fields''
                (JObj [(''new-field'', JObj (new_field cs None location 0))]) block),
              ''new-field''))
   \<and> (own block ''fields'' = JObj kvs \<and> own kvs p = JObj pf \<and> own pf ''sub_fields'' = JObj sfs \<longrightarrow>
      addNewField cs block location (Some p) =
        Some (save_block (AList.update ''fields''
                (JObj (AList.update p (JObj (AList.update ''sub_fields'' (JObj (AList.update
                   (new_field_name (getNewFieldNumber (map fst sfs) None))
                   (JObj (AList.update ''parent'' (JStr p)
                      (new_field cs (getNewFieldNumber (map fst sfs) None) location (length sfs))))
                   sfs)) pf)) kvs)) block),
              new_field_name (getNewFieldNumber (map fst sfs) None)))
   \<and> new_field_name (getNewFieldNumber keys None) \<notin> set keys
   \<and> getNewFieldNumber [] None = None
   \<and> new_field_name None = ''new-field''
   \<and> getNewFieldNumber [''new-field''] None = Some 2
   \<and> new_field_name (Some 2) = ''new-field-2''
   \<and> own (new_field cs n location k) ''name'' = JStr (new_field_name n)
   \<and> own (new_field cs n location k) ''location'' = JStr location
   \<and> own (new_field cs n location k) ''order'' = JNum (int k)
   \<and> (\<forall>a. a \<notin> {''name'', ''location'', ''label'', ''control'', ''type'', ''order''} \<longrightarrow>
         own (new_field cs n location k) a = own (getSettingsDefaults ''text'' cs) a)"
proof -
  have two: "getNewFieldNumber [''new-field''] None = Some 2"
    by (simp add: getNewFieldNumber_def suffixed_def)
  have name2: "new_field_name (Some 2) = ''new-field-2''"
    by code_simp
  show ?thesis
    using addNewField_top[of block kvs cs location] addNewField_empty[of block xs cs location]
      addNewField_nested[of block kvs p pf sfs cs location]
      new_field_name_fresh[of keys] new_field_attrs[of cs n location k]
      new_field_seeded[of _ cs n location k] two name2
    by (simp add: getNewFieldNumber_def new_field_name_def)
qed

theorem addNewField_seeds_new_field_witness:
  "own [(''name'', JStr ''blk''), (''fields'', JObj [])] ''fields'' = JObj []
   \<and> addNewField text_registry [(''name'', JStr ''blk''), (''fields'', JObj [])] ''editor'' None =
       Some (EditBlock [(''name'', JStr ''blk''), (''fields'', JObj [(''new-field'',
          JObj [(''help'', JStr []), (''maxlength'', JNull), (''name'', JStr ''new-field''),
                (''location'', JStr ''editor''), (''label'', JStr ''New Field''),
                (''control'', JStr ''text''), (''type'', JStr ''string''), (''order'', JNum 0)])])],
         ''new-field'')
   \<and> own one_field_block ''fields'' = JObj [(''new-field'', JObj first_new_field)]
   \<and> addNewField text_registry one_field_block ''editor'' None =
       Some (EditBlock [(''name'', JStr ''blk''), (''fields'', JObj [(''new-field'', JObj first_new_field),
          (''new-field-2'',
          JObj [(''help'', JStr []), (''maxlength'', JNull), (''name'', JStr ''new-field-2''),
                (''location'', JStr ''editor''), (''label'', JStr ''New Field 2''),
                (''control'', JStr ''text''), (''type'', JStr ''string''), (''order'', JNum 1)])])],
         ''new-field-2'')
   \<and> own [(''title'', JStr ''T'')] ''fields'' = JUndefined
   \<and> addNewField text_registry [(''title'', JStr ''T'')] ''editor'' None =
       Some (ChangeBlock [(''title'', JStr ''T''), (''fields'', JObj [(''new-field'',
          JObj [(''help'', JStr []), (''maxlength'', JNull), (''name'', JStr ''new-field''),
                (''location'', JStr ''editor''), (''label'', JStr ''New Field''),
                (''control'', JStr ''text''), (''type'', JStr ''string''), (''order'', JNum 0)])])],
         ''new-field'')
   \<and> own repeater_block ''fields'' = JObj [(''r'', JObj [(''name'', JStr ''r''), (''control'', JStr ''repeater''),
                                     (''order'', JNum 0), (''sub_fields'', JObj [])])]
   \<and> addNewField text_registry repeater_block ''editor'' (Some ''r'') =
       Some (EditBlock [(''name'', JStr ''blk''),
          (''fields'', JObj [(''r'', JObj [(''name'', JStr ''r''), (''control'', JStr ''repeater''),
             (''order'', JNum 0), (''sub_fields'', JObj [(''new-field'',
          JObj [(''help'', JStr []), (''maxlength'', JNull), (''name'', JStr ''new-field''),
                (''location'', JStr ''editor''), (''label'', JStr ''New Field''),
                (''control'', JStr ''text''), (''type'', JStr ''string''), (''order'', JNum 0),
                (''parent'', JStr ''r'')])])])])],
         ''new-field'')
   \<and> ''help'' \<notin> {''name'', ''location'', ''label'', ''control'', ''type'', ''order''}
   \<and> own (new_field text_registry None ''editor'' 0) ''help'' = JStr []"
proof -
  let ?b1 = "[(''name'', JStr ''blk''), (''fields'', JObj [])]"
  let ?b2 = "[(''title'', JStr ''T'')]"
  let ?r = "[(''name'', JStr ''r''), (''control'', JStr ''repeater''),
             (''order'', JNum 0), (''sub_fields'', JObj [])]"
  have h1: "own ?b1 ''fields'' = JObj []" by (simp add: own_def)
  have h2: "own ?b2 ''fields'' = JUndefined" by (simp add: own_def)
  have h3: "own repeater_block ''fields'' = JObj [(''r'', JObj ?r)]"
    by (simp add: own_def repeater_block_def)
  have h3': "own [(''r'', JObj ?r)] ''r'' = JObj ?r" "own ?r ''sub_fields'' = JObj []"
    by (simp_all add: own_def)
  have h4: "''help'' \<notin> {''name'', ''location'', ''label'', ''control'', ''type'', ''order''}"
    by simp
  note t1 = addNewField_seeds_new_field[of ?b1 "[]" text_registry "''editor''"]
  note t2 = addNewField_seeds_new_field[of ?b2 _ text_registry "''editor''"]
  note t3 = addNewField_seeds_new_field[of repeater_block "[(''r'', JObj ?r)]" text_registry "''editor''" _ "''r''" ?r "[]" _ None 0]
  have c1: "addNewField text_registry ?b1 ''editor'' None =
        Some (save_block (AList.update ''fields'' (JObj (AList.update
                (new_field_name (getNewFieldNumber (map fst []) None))
                (JObj (new_field text_registry (getNewFieldNumber (map fst []) None) ''editor'' (length [])))
                [])) ?b1),
              new_field_name (getNewFieldNumber (map fst []) None))"
    using t1 h1 by simp
  have c2: "addNewField text_registry ?b2 ''editor'' None =
        Some (save_block (AList.update ''fields''
                (JObj [(''new-field'', JObj (new_field text_registry None ''editor'' 0))]) ?b2),
              ''new-field'')"
    using t2 h2 by simp
  have c3: "addNewField text_registry repeater_block ''editor'' (Some ''r'') =
        Some (save_block (AList.update ''fields''
                (JObj (AList.update ''r'' (JObj (AList.update ''sub_fields'' (JObj (AList.update
                   (new_field_name (getNewFieldNumber (map fst []) None))
                   (JObj (AList.update ''parent'' (JStr ''r'')
                      (new_field text_registry (getNewFieldNumber (map fst []) None) ''editor'' (length []))))
                   [])) ?r)) [(''r'', JObj ?r)])) repeater_block),
              new_field_name (getNewFieldNumber (map fst []) None))"
    using t3 h3 h3' by simp
  have c4: "own (new_field text_registry None ''editor'' 0) ''help'' = own (getSettingsDefaults ''text'' text_registry) ''help''"
    using t3 h4 by simp
  let ?k1 = "[(''new-field'', JObj first_new_field)]"
  have h5: "own one_field_block ''fields'' = JObj ?k1"
    by (simp add: own_def one_field_block_def)
  note t5 = addNewField_seeds_new_field[of one_field_block ?k1 text_registry "''editor''"]
  have c5: "addNewField text_registry one_field_block ''editor'' None =
        Some (save_block (AList.update ''fields'' (JObj (AList.update
                (new_field_name (getNewFieldNumber (map fst ?k1) None))
                (JObj (new_field text_registry (getNewFieldNumber (map fst ?k1) None) ''editor'' (length ?k1)))
                ?k1)) one_field_block),
              new_field_name (getNewFieldNumber (map fst ?k1) None))"
    using t5 h5 by simp
  show ?thesis
    unfolding c1 c2 c3 c4 c5 h3 h5 by code_simp
qed

section \<open>changeControl\<close>

lemma controls_get_registered:
  "map_of cs newControlName = Some c \<Longrightarrow> controls_get cs newControlName = Some (Registered c)"
  by (simp add: controls_get_def)

lemma changeControl_noop:
  "controls_get cs newControlName = None \<or> sel_name sel = None \<or> sel_name sel = Some [] \<Longrightarrow>
   changeControl cs block sel newControlName = Some NoChange"
  by (auto simp: changeControl_def truthy_opt_val split: option.splits)

lemma changeControl_top:
  assumes "map_of cs newControlName = Some c" "sel_name sel = Some nm" "nm \<noteq> []"
    "sel_parent sel = None" "own block ''fields'' = JObj kvs" "own kvs nm = JObj prev"
  shows "changeControl cs block sel newControlName =
     Some (EditBlock (AList.update ''fields'' (JObj (AList.update nm
        (JObj (replacement_field cs c (own prev ''name'') (own prev ''label'')
                 (own prev ''location'') (own prev ''order''))) kvs)) block))"
  using assms
  by (simp add: changeControl_def controls_get_registered replacement_for_def truthy_opt_val
      key_of_Some obj_lit_one Let_def)

lemma changeControl_nested:
  assumes "map_of cs newControlName = Some c" "sel_name sel = Some nm" "nm \<noteq> []"
    "sel_parent sel = Some p" "own block ''fields'' = JObj kvs" "own kvs p = JObj pf"
    "own pf ''sub_fields'' = JObj sfs" "own sfs nm = JObj prev"
  shows "changeControl cs block sel newControlName =
     Some (EditBlock (AList.update ''fields'' (JObj (AList.update p (JObj (AList.update ''sub_fields''
        (JObj (AList.update nm
           (JObj (AList.update ''parent'' (JStr p)
              (replacement_field cs c (own prev ''name'') (own prev ''label'')
                 (own prev ''location'') (own prev ''order'')))) sfs)) pf)) kvs)) block))"
  using assms
  by (simp add: changeControl_def controls_get_registered replacement_for_def truthy_opt_val
      key_of_Some obj_lit_one Let_def sub_fields_of_JObj set_sub_field_JObj)

lemma replacement_field_attrs:
  "own (replacement_field cs c a b l r) ''name'' = a"
  "own (replacement_field cs c a b l r) ''label'' = b"
  "own (replacement_field cs c a b l r) ''location'' = l"
  "own (replacement_field cs c a b l r) ''order'' = r"
  "own (replacement_field cs c a b l r) ''control'' = JStr (ctl_name c)"
  "own (replacement_field cs c a b l r) ''type'' = JStr (ctl_type c)"
  by (simp_all add: replacement_field_def obj_lit_def own_update)

lemma replacement_field_reset:
  "x \<notin> {''name'', ''label'', ''location'', ''order'', ''control'', ''type''} \<Longrightarrow>
   own (replacement_field cs c a b l r) x = own (getSettingsDefaults (ctl_name c) cs) x"
  by (simp add: replacement_field_def obj_lit_def own_update)

lemma replacement_field_keys:
  "fst ` set (replacement_field cs c a b l r) =
   fst ` set (getSettingsDefaults (ctl_name c) cs) \<union>
   {''name'', ''label'', ''location'', ''order'', ''control'', ''type''}"
  by (auto simp add: replacement_field_def obj_lit_def dom_update)

text \<open>
  C6. The guard of \<open>changeControl\<close> tests what \<open>controls[ newControlName ]\<close> has
  found, and for a name that is not in the registry this is not always \<open>undefined\<close>:
  under \<open>constructor\<close> it is the function \<open>Object\<close> that every object inherits. With
  the controls \<open>text\<close>, \<open>image\<close> and \<open>repeater\<close> registered, \<open>changeControl\<close> of
  the field \<open>title\<close> to \<open>constructor\<close> does not return without a change: it hands
  over a block in which \<open>title\<close> has the control \<open>Object\<close>, no \<open>type\<close> and none of
  its previous settings. A name that is neither registered nor inherited, such as
  \<open>slider\<close>, leaves the block as it is.
\<close>

theorem changeControl_inherited_control_name:
  "map_of editor_controls ''constructor'' = None
   \<and> changeControl editor_controls title_block sel_title ''constructor'' =
       Some (EditBlock [(''name'', JStr ''blk''), (''fields'', JObj [(''title'',
          JObj [(''name'', JStr ''title''), (''label'', JStr ''Title''),
                (''location'', JStr ''editor''), (''order'', JNum 0),
                (''control'', JStr ''Object''), (''type'', JUndefined)])])])
   \<and> map_of editor_controls ''slider'' = None
   \<and> changeControl editor_controls title_block sel_title ''slider'' = Some NoChange"
  by code_simp

text \<open>
  C10. The field that \<open>getField\<close> finds after \<open>changeControl\<close> is the replacement.
  Its attributes are the default settings of the new control and \<open>name\<close>, \<open>label\<close>,
  \<open>location\<close>, \<open>order\<close>, \<open>control\<close>, \<open>type\<close>, with \<open>parent\<close> for a nested field,
  and no other: an attribute of the previous field outside these, such as the
  \<open>sub_fields\<close> and the \<open>uniqueId\<close> of a repeater, is not in it.
\<close>

theorem changeControl_discards_other_attributes:
  "(map_of cs newControlName = Some c \<and> sel_name sel = Some nm \<and> sel_uniqueId sel = Some nm \<and>
      nm \<noteq> [] \<and> sel_parent sel = None \<and> own block ''fields'' = JObj kvs \<and>
      own kvs nm = JObj prev \<longrightarrow>
      after_edit (changeControl cs block sel newControlName) (\<lambda>b'. getField b' (Some sel)) =
        Some (JObj (replacement_field cs c (own prev ''name'') (own prev ''label'')
                      (own prev ''location'') (own prev ''order''))))
   \<and> (map_of cs newControlName = Some c \<and> sel_name sel = Some nm \<and> sel_uniqueId sel = Some nm \<and>
      nm \<noteq> [] \<and> sel_parent sel = Some p \<and> p \<noteq> [] \<and> own block ''fields'' = JObj kvs \<and>
      own kvs p = JObj pf \<and> own pf ''sub_fields'' = JObj sfs \<and> own sfs nm = JObj prev \<longrightarrow>
      after_edit (changeControl cs block sel newControlName) (\<lambda>b'. getField b' (Some sel)) =
        Some (JObj (AList.update ''parent'' (JStr p)
                (replacement_field cs c (own prev ''name'') (own prev ''label'')
                      (own prev ''location'') (own prev ''order'')))))
   \<and> fst ` set (replacement_field cs c a b l r) =
        fst ` set (getSettingsDefaults (ctl_name c) cs) \<union>
        {''name'', ''label'', ''location'', ''order'', ''control'', ''type''}
   \<and> fst ` set (AList.update ''parent'' (JStr p) (replacement_field cs c a b l r)) =
        fst ` set (getSettingsDefaults (ctl_name c) cs) \<union>
        {''name'', ''label'', ''location'', ''order'', ''control'', ''type'', ''parent''}
   \<and> (\<forall>x. x \<notin> fst ` set (getSettingsDefaults (ctl_name c) cs) \<and>
           x \<notin> {''name'', ''label'', ''location'', ''order'', ''control'', ''type'', ''parent''} \<longrightarrow>
         \<not> has_own (JObj (replacement_field cs c a b l r)) x \<and>
         \<not> has_own (JObj (AList.update ''parent'' (JStr p) (replacement_field cs c a b l r))) x)"
proof -
  have top: "after_edit (changeControl cs block sel newControlName) (\<lambda>b'. getField b' (Some sel)) =
        Some (JObj (replacement_field cs c (own prev ''name'') (own prev ''label'')
                      (own prev ''location'') (own prev ''order'')))"
    if "map_of cs newControlName = Some c" "sel_name sel = Some nm" "sel_uniqueId sel = Some nm"
      "nm \<noteq> []" "sel_parent sel = None" "own block ''fields'' = JObj kvs" "own kvs nm = JObj prev"
    using that changeControl_top[of cs newControlName c sel nm block kvs prev]
    by (simp add: after_edit_EditBlock getField_top[where u = nm] own_update)
  have nested: "after_edit (changeControl cs block sel newControlName) (\<lambda>b'. getField b' (Some sel)) =
        Some (JObj (AList.update ''parent'' (JStr p)
                (replacement_field cs c (own prev ''name'') (own prev ''label'')
                      (own prev ''location'') (own prev ''order''))))"
    if "map_of cs newControlName = Some c" "sel_name sel = Some nm" "sel_uniqueId sel = Some nm"
      "nm \<noteq> []" "sel_parent sel = Some p" "p \<noteq> []" "own block ''fields'' = JObj kvs"
      "own kvs p = JObj pf" "own pf ''sub_fields'' = JObj sfs" "own sfs nm = JObj prev"
  proof -
    let ?new = "JObj (AList.update ''parent'' (JStr p)
                (replacement_field cs c (own prev ''name'') (own prev ''label'')
                      (own prev ''location'') (own prev ''order'')))"
    let ?sfs = "AList.update nm ?new sfs"
    let ?pf = "AList.update ''sub_fields'' (JObj ?sfs) pf"
    let ?kvs = "AList.update p (JObj ?pf) kvs"
    have "getField (AList.update ''fields'' (JObj ?kvs) block) (Some sel) = Some (own ?sfs nm)"
      using that by (intro getField_nested[where p = p and pf = "?pf" and kvs = "?kvs"])
        (simp_all add: own_update)
    then show ?thesis
      using that changeControl_nested[of cs newControlName c sel nm p block kvs pf sfs prev]
      by (simp add: after_edit_EditBlock own_update)
  qed
  have keys: "fst ` set (replacement_field cs c a b l r) =
        fst ` set (getSettingsDefaults (ctl_name c) cs) \<union>
        {''name'', ''label'', ''location'', ''order'', ''control'', ''type''}"
    by (rule replacement_field_keys)
  have keys': "fst ` set (AList.update ''parent'' (JStr p) (replacement_field cs c a b l r)) =
        fst ` set (getSettingsDefaults (ctl_name c) cs) \<union>
        {''name'', ''label'', ''location'', ''order'', ''control'', ''type'', ''parent''}"
    unfolding dom_update keys by auto
  have gone: "\<not> has_own (JObj (replacement_field cs c a b l r)) x \<and>
         \<not> has_own (JObj (AList.update ''parent'' (JStr p) (replacement_field cs c a b l r))) x"
    if "x \<notin> fst ` set (getSettingsDefaults (ctl_name c) cs) \<and>
           x \<notin> {''name'', ''label'', ''location'', ''order'', ''control'', ''type'', ''parent''}" for x
    using that unfolding has_own.simps keys keys' by simp
  show ?thesis
    using top nested keys keys' gone by blast
qed

theorem changeControl_discards_other_attributes_witness:
  "has_own (JObj rows_field) ''sub_fields'' \<and> has_own (JObj rows_field) ''uniqueId''
   \<and> after_edit (changeControl editor_controls rows_block sel_rows ''text'')
        (\<lambda>b'. getField b' (Some sel_rows)) =
      Some (JObj [(''help'', JStr []), (''maxlength'', JNull), (''name'', JStr ''rows''),
                  (''label'', JStr ''Rows''), (''location'', JStr ''editor''), (''order'', JNum 0),
                  (''control'', JStr ''text''), (''type'', JStr ''string'')])
   \<and> after_edit (changeControl editor_controls rows_block sel_cell ''image'')
        (\<lambda>b'. getField b' (Some sel_cell)) =
      Some (JObj [(''help'', JStr []), (''name'', JStr ''cell''), (''label'', JStr ''Cell''),
                  (''location'', JStr ''editor''), (''order'', JNum 0),
                  (''control'', JStr ''image''), (''type'', JStr ''integer''),
                  (''parent'', JStr ''rows'')])
   \<and> \<not> has_own (JObj (replacement_field editor_controls
          \<lparr>ctl_name = ''text'', ctl_type = ''string'',
             ctl_defaultSettings = Some [(''help'', JStr []), (''maxlength'', JNull)]\<rparr>
          (JStr ''rows'') (JStr ''Rows'') (JStr ''editor'') (JNum 0))) ''sub_fields''
   \<and> \<not> has_own (JObj (replacement_field editor_controls
          \<lparr>ctl_name = ''text'', ctl_type = ''string'',
             ctl_defaultSettings = Some [(''help'', JStr []), (''maxlength'', JNull)]\<rparr>
          (JStr ''rows'') (JStr ''Rows'') (JStr ''editor'') (JNum 0))) ''uniqueId''"
proof -
  let ?txt = "\<lparr>ctl_name = ''text'', ctl_type = ''string'',
             ctl_defaultSettings = Some [(''help'', JStr []), (''maxlength'', JNull)]\<rparr>"
  let ?img = "\<lparr>ctl_name = ''image'', ctl_type = ''integer'', ctl_defaultSettings = Some [(''help'', JStr [])]\<rparr>"
  have h0: "map_of editor_controls ''text'' = Some ?txt" by (simp add: editor_controls_def)
  have h1: "map_of editor_controls ''image'' = Some ?img" by (simp add: editor_controls_def)
  have h2: "sel_name sel_rows = Some ''rows''" "sel_uniqueId sel_rows = Some ''rows''"
    "sel_parent sel_rows = None"
    "own rows_block ''fields'' = JObj [(''rows'', JObj rows_field)]"
    "own [(''rows'', JObj rows_field)] ''rows'' = JObj rows_field"
    by (simp_all add: sel_rows_def rows_block_def own_def)
  have h3: "sel_name sel_cell = Some ''cell''" "sel_uniqueId sel_cell = Some ''cell''"
    "sel_parent sel_cell = Some ''rows''"
    "own rows_field ''sub_fields'' = JObj [(''cell'', JObj cell_field)]"
    "own [(''cell'', JObj cell_field)] ''cell'' = JObj cell_field"
    by (simp_all add: sel_cell_def rows_field_def own_def)
  have h4: "''sub_fields'' \<notin> fst ` set (getSettingsDefaults (ctl_name ?txt) editor_controls) \<and>
      ''sub_fields'' \<notin> {''name'', ''label'', ''location'', ''order'', ''control'', ''type'', ''parent''}"
    "''uniqueId'' \<notin> fst ` set (getSettingsDefaults (ctl_name ?txt) editor_controls) \<and>
      ''uniqueId'' \<notin> {''name'', ''label'', ''location'', ''order'', ''control'', ''type'', ''parent''}"
    by (simp_all add: getSettingsDefaults_def editor_controls_def)
  note t1 = changeControl_discards_other_attributes[of editor_controls "''text''" ?txt sel_rows
      "''rows''" rows_block "[(''rows'', JObj rows_field)]" rows_field _ _ _
      "JStr ''rows''" "JStr ''Rows''" "JStr ''editor''" "JNum 0"]
  note t2 = changeControl_discards_other_attributes[of editor_controls "''image''" ?img sel_cell
      "''cell''" rows_block "[(''rows'', JObj rows_field)]" cell_field "''rows''" rows_field
      "[(''cell'', JObj cell_field)]"]
  have c1: "after_edit (changeControl editor_controls rows_block sel_rows ''text'')
        (\<lambda>b'. getField b' (Some sel_rows)) =
        Some (JObj (replacement_field editor_controls ?txt (own rows_field ''name'') (own rows_field ''label'')
                      (own rows_field ''location'') (own rows_field ''order'')))"
    using t1 h0 h2 by simp
  have c2: "after_edit (changeControl editor_controls rows_block sel_cell ''image'')
        (\<lambda>b'. getField b' (Some sel_cell)) =
        Some (JObj (AList.update ''parent'' (JStr ''rows'')
                (replacement_field editor_controls ?img (own cell_field ''name'') (own cell_field ''label'')
                      (own cell_field ''location'') (own cell_field ''order''))))"
    using t2 h1 h2 h3 by simp
  have c3: "\<not> has_own (JObj (replacement_field editor_controls ?txt
          (JStr ''rows'') (JStr ''Rows'') (JStr ''editor'') (JNum 0))) ''sub_fields''"
    "\<not> has_own (JObj (replacement_field editor_controls ?txt
          (JStr ''rows'') (JStr ''Rows'') (JStr ''editor'') (JNum 0))) ''uniqueId''"
    using t1[THEN conjunct2, THEN conjunct2, THEN conjunct2, THEN conjunct2, rule_format, OF h4(1)]
      t1[THEN conjunct2, THEN conjunct2, THEN conjunct2, THEN conjunct2, rule_format, OF h4(2)]
    by simp_all
  have c4: "has_own (JObj rows_field) ''sub_fields''" "has_own (JObj rows_field) ''uniqueId''"
    by (simp_all add: rows_field_def)
  show ?thesis
    using c3 c4 unfolding c1 c2 by code_simp
qed

section \<open>The read accessors\<close>

text \<open>
  C9. \<open>getField\<close> and \<open>getFieldsForLocation\<close> guard against a missing selection
  and a missing collection, and \<open>getFieldsForLocation\<close> returns \<open>null\<close> for a parent
  without \<open>sub_fields\<close>. Neither guards the parent itself: for a selection whose
  parent is no field of the block, \<open>block.fields[ parent ]\<close> is \<open>undefined\<close> and
  reading its \<open>sub_fields\<close> throws, in both accessors; and \<open>getField\<close> throws for a
  parent that has no \<open>sub_fields\<close>, where \<open>getFieldsForLocation\<close> returns \<open>null\<close>.
\<close>

theorem read_accessors_throw_on_unknown_parent:
  "getField rows_block (Some sel_orphan) = None
   \<and> getFieldsForLocation rows_block (JStr ''editor'') (Some ''ghost'') = None
   \<and> getFieldsForLocation title_block (JStr ''editor'') (Some ''title'') = Some JNull
   \<and> getField title_block (Some sel_under_title) = None"
  by code_simp

section \<open>duplicateField\<close>

text \<open>
  C7. For a nested field the \<open>order\<close> of the clone is \<open>Object.values( fields ).length\<close>,
  the number of fields at the top level, not the number of its siblings in
  \<open>currentFields\<close>: in a block with one repeater that has two sub-fields, the clone of
  a sub-field gets order 1, not 2.
\<close>

theorem duplicateField_nested_order:
  "map_option length (Option.bind (sub_fields_of (own grid_block ''fields'') ''rows'') obj_values) = Some 2
   \<and> after_edit (duplicateField grid_block sel_cell)
        (\<lambda>b'. getField b' (Some \<lparr>sel_uniqueId = Some ''cell-2'', sel_name = Some ''cell-2'',
                                   sel_parent = Some ''rows''\<rparr>)) =
      Some (JObj [(''name'', JStr ''cell-2''), (''label'', JStr ''Cell''),
                 (''control'', JStr ''text''), (''type'', JStr ''string''),
                 (''location'', JStr ''editor''), (''order'', JNum 1),
                 (''parent'', JStr ''rows'')])"
  by code_simp

section \<open>Selections that name no field\<close>

text \<open>
  C2, as stated, fails. With a selection that names no field of the block,
  \<open>changeFieldSettings\<close> with a new name adds a field that consists of \<open>name\<close> and
  \<open>uniqueId\<close> only, and \<open>changeControl\<close> and \<open>addNewField\<close> (for an unknown parent)
  throw.
\<close>

theorem unknown_reference_counterexample:
  "own title_block ''fields'' = JObj [(''title'', JObj title_field)]
   \<and> changeFieldSettings title_block sel_ghost [(''name'', JStr ''b'')] =
       Some (EditBlock [(''name'', JStr ''blk''),
          (''fields'', JObj [(''title'', JObj title_field),
                            (''b'', JObj [(''name'', JStr ''b''), (''uniqueId'', JStr ''b'')])])])
   \<and> changeControl editor_controls title_block sel_ghost ''image'' = None
   \<and> addNewField editor_controls title_block ''editor'' (Some ''ghost'') = None"
  by code_simp

lemma deleteField_unknown:
  assumes "own block ''fields'' = JObj kvs"
    "sel_parent sel = None \<or> own kvs (key_of (sel_parent sel)) = JUndefined"
    "key_of (sel_name sel) \<notin> fst ` set kvs"
  shows "deleteField block sel = Some (EditBlock block)"
proof -
  have "AList.update ''fields'' (JObj kvs) block = block"
    using assms(1) by (simp add: update_own_same)
  then show ?thesis
    using assms by (auto simp: deleteField_def Let_def obj_lit_one)
qed

lemma new_id_fresh: "new_id keys newName \<notin> set keys"
  using getNewFieldNumber_Some[of keys newName] getNewFieldNumber_cases[of keys newName]
  by (auto simp: new_id_def split: option.splits)

lemma changeFieldName_unknown:
  assumes "prev \<notin> fst ` set kvs"
  shows "changeFieldName (JObj kvs) prev (JStr newName) =
     Some (AList.delete prev (AList.update (new_id (map fst kvs) newName)
        (JObj [(''name'', JStr newName), (''uniqueId'', JStr (new_id (map fst kvs) newName))]) kvs))"
  using assms
  by (auto simp: changeFieldName_def Let_def obj_keys_JObj own_absent obj_lit_def new_id_def
      split: option.splits)

text \<open>
  C2, amended. \<open>deleteField\<close> with a selection whose name is no key of the
  collection, and whose parent is absent or no field either, hands the unchanged block
  to \<open>editBlock\<close>. The rename step \<open>changeFieldName\<close> with a previous id under which
  there is no field keeps every entry of the collection as it is, and adds under the
  new id, which is no key of the collection, a field that consists of the new \<open>name\<close>
  and \<open>uniqueId\<close>; it is there in the result unless the new id is the previous id.
\<close>

theorem unknown_reference_amended:
  "(own block ''fields'' = JObj kvs \<and>
      (sel_parent sel = None \<or> own kvs (key_of (sel_parent sel)) = JUndefined) \<and>
      key_of (sel_name sel) \<notin> fst ` set kvs \<longrightarrow>
      deleteField block sel = Some (EditBlock block))
   \<and> (prev \<notin> fst ` set kvs \<longrightarrow>
      changeFieldName (JObj kvs) prev (JStr newName) =
        Some (AList.delete prev (AList.update (new_id (map fst kvs) newName)
          (JObj [(''name'', JStr newName), (''uniqueId'', JStr (new_id (map fst kvs) newName))]) kvs))
      \<and> new_id (map fst kvs) newName \<notin> fst ` set kvs
      \<and> (\<forall>k \<in> fst ` set kvs.
            map_of (AList.delete prev (AList.update (new_id (map fst kvs) newName)
              (JObj [(''name'', JStr newName), (''uniqueId'', JStr (new_id (map fst kvs) newName))]) kvs)) k
            = map_of kvs k)
      \<and> (new_id (map fst kvs) newName \<noteq> prev \<longrightarrow>
            map_of (AList.delete prev (AList.update (new_id (map fst kvs) newName)
              (JObj [(''name'', JStr newName), (''uniqueId'', JStr (new_id (map fst kvs) newName))]) kvs))
              (new_id (map fst kvs) newName)
            = Some (JObj [(''name'', JStr newName),
                          (''uniqueId'', JStr (new_id (map fst kvs) newName))])))"
proof -
  have fresh: "new_id (map fst kvs) newName \<notin> fst ` set kvs"
    using new_id_fresh[of "map fst kvs" newName] by simp
  have same: "map_of (AList.delete prev (AList.update (new_id (map fst kvs) newName) v kvs)) k
            = map_of kvs k" if "k \<in> fst ` set kvs" "prev \<notin> fst ` set kvs" for k v
  proof -
    have "k \<noteq> prev" "k \<noteq> new_id (map fst kvs) newName" using that fresh by blast+
    then show ?thesis by (simp add: delete_conv' update_conv')
  qed
  have added: "map_of (AList.delete prev (AList.update (new_id (map fst kvs) newName) v kvs))
              (new_id (map fst kvs) newName) = Some v"
    if "new_id (map fst kvs) newName \<noteq> prev" for v
    using that by (simp add: delete_conv' update_conv')
  show ?thesis
    using deleteField_unknown[of block kvs sel] changeFieldName_unknown[of prev kvs newName]
      fresh same added
    by simp
qed

theorem unknown_reference_amended_witness:
  "own title_block ''fields'' = JObj [(''title'', JObj title_field)]
   \<and> sel_parent sel_ghost = None
   \<and> key_of (sel_name sel_ghost) \<notin> fst ` set [(''title'', JObj title_field)]
   \<and> deleteField title_block sel_ghost = Some (EditBlock title_block)
   \<and> changeFieldName (JObj [(''title'', JObj title_field)]) ''ghost'' (JStr ''b'') =
        Some [(''title'', JObj title_field),
              (''b'', JObj [(''name'', JStr ''b''), (''uniqueId'', JStr ''b'')])]
   \<and> ''title'' \<in> fst ` set [(''title'', JObj title_field)]
   \<and> new_id (map fst [(''title'', JObj title_field)]) ''b'' \<noteq> ''ghost''"
proof -
  let ?kvs = "[(''title'', JObj title_field)]"
  have h1: "own title_block ''fields'' = JObj ?kvs" by (simp add: title_block_def own_def)
  have h2: "sel_parent sel_ghost = None" by (simp add: sel_ghost_def)
  have h3: "key_of (sel_name sel_ghost) \<notin> fst ` set ?kvs"
    by (simp add: sel_ghost_def key_of_Some)
  have h4: "''ghost'' \<notin> fst ` set ?kvs" by simp
  have h5: "new_id (map fst ?kvs) ''b'' \<noteq> ''ghost''"
    by (simp add: new_id_def getNewFieldNumber_def)
  note t = unknown_reference_amended[of title_block ?kvs sel_ghost "''ghost''" "''b''"]
  have c1: "deleteField title_block sel_ghost = Some (EditBlock title_block)"
    using t h1 h2 h3 by simp
  have c2: "changeFieldName (JObj ?kvs) ''ghost'' (JStr ''b'') =
        Some (AList.delete ''ghost'' (AList.update (new_id (map fst ?kvs) ''b'')
          (JObj [(''name'', JStr ''b''), (''uniqueId'', JStr (new_id (map fst ?kvs) ''b''))]) ?kvs))"
    using t h4 by simp
  have c3: "Some (AList.delete ''ghost'' (AList.update (new_id (map fst ?kvs) ''b'')
          (JObj [(''name'', JStr ''b''), (''uniqueId'', JStr (new_id (map fst ?kvs) ''b''))]) ?kvs))
      = Some [(''title'', JObj title_field),
              (''b'', JObj [(''name'', JStr ''b''), (''uniqueId'', JStr ''b'')])]"
    by (simp add: new_id_def getNewFieldNumber_def)
  show ?thesis
    using h1 h2 h3 h5 c1 c2 c3 by simp
qed

section \<open>changeFieldName\<close>

lemma set_update_subset: "set (AList.update k v al) \<subseteq> insert (k, v) (set al)"
  by (induction al) auto

lemma getFieldsAsObject_fold_values:
  "(k, v) \<in> set (fold (\<lambda>f acc. case field_key f of Some k \<Rightarrow> AList.update k f acc | None \<Rightarrow> acc) fs acc)
   \<Longrightarrow> (k, v) \<in> set acc \<or> v \<in> set fs"
proof (induction fs arbitrary: acc)
  case Nil
  then show ?case by simp
next
  case (Cons f fs)
  let ?acc = "case field_key f of Some k \<Rightarrow> AList.update k f acc | None \<Rightarrow> acc"
  from Cons.prems have "(k, v) \<in> set ?acc \<or> v \<in> set fs"
    by (intro Cons.IH) simp
  moreover have "(k, v) \<in> set ?acc \<Longrightarrow> (k, v) \<in> set acc \<or> v = f"
    using set_update_subset[of _ f acc] by (cases "field_key f") auto
  ultimately show ?case by auto
qed

lemma getFieldsAsObject_values: "(k, v) \<in> set (getFieldsAsObject fs) \<Longrightarrow> v \<in> set fs"
  using getFieldsAsObject_fold_values[of k v fs "[]"] by (simp add: getFieldsAsObject_def)

lemma reparent_parent: "js_get (reparent newName sf) ''parent'' = Some newName"
  by (simp add: reparent_def obj_lit_one own_update)

lemma changeFieldName_repeater:
  assumes "own kvs prev = JObj fprops" "''sub_fields'' \<in> fst ` set fprops"
    "obj_values (own fprops ''sub_fields'') = Some vals"
  shows "changeFieldName (JObj kvs) prev (JStr nn) =
     Some (AList.delete prev (AList.update (new_id (map fst kvs) nn)
        (JObj (obj_lit (AList.update ''sub_fields''
                          (JObj (getFieldsAsObject (map (reparent (JStr nn)) vals))) fprops)
                 [(''name'', JStr nn), (''uniqueId'', JStr (new_id (map fst kvs) nn))])) kvs))"
  using assms
  by (auto simp: changeFieldName_def Let_def obj_keys_JObj new_id_def split: option.splits)

text \<open>
  C4. When the field under the previous id has \<open>sub_fields\<close>, \<open>changeFieldName\<close>
  returns the collection in which the previous key is gone and the field stands under
  the new id: the new name when no field has it as key, else the new name with a
  suffix \<open>-n\<close>, \<open>n\<close> at least 2; the new id is no key of the collection before. The
  field has the new \<open>name\<close>, the new id as \<open>uniqueId\<close>, and \<open>sub_fields\<close> in which
  the \<open>parent\<close> of every sub-field is the new name, so none keeps another name as
  parent. The other entries of the collection are unchanged.
\<close>

theorem rename_rewrites_parent_of_sub_fields:
  "own kvs prev = JObj fprops \<and> ''sub_fields'' \<in> fst ` set fprops \<and>
   obj_values (own fprops ''sub_fields'') = Some vals \<longrightarrow>
     changeFieldName (JObj kvs) prev (JStr nn) =
       Some (AList.delete prev (AList.update (new_id (map fst kvs) nn)
              (JObj (renamed_field fprops vals nn (new_id (map fst kvs) nn))) kvs))
     \<and> prev \<notin> fst ` set (AList.delete prev (AList.update (new_id (map fst kvs) nn)
              (JObj (renamed_field fprops vals nn (new_id (map fst kvs) nn))) kvs))
     \<and> new_id (map fst kvs) nn \<notin> fst ` set kvs
     \<and> (nn \<notin> fst ` set kvs \<longrightarrow> new_id (map fst kvs) nn = nn)
     \<and> (nn \<in> fst ` set kvs \<longrightarrow> (\<exists>n\<ge>2. new_id (map fst kvs) nn = suffixed nn n))
     \<and> map_of (AList.delete prev (AList.update (new_id (map fst kvs) nn)
              (JObj (renamed_field fprops vals nn (new_id (map fst kvs) nn))) kvs))
          (new_id (map fst kvs) nn)
        = Some (JObj (renamed_field fprops vals nn (new_id (map fst kvs) nn)))
     \<and> (\<forall>k. k \<noteq> prev \<and> k \<noteq> new_id (map fst kvs) nn \<longrightarrow>
          map_of (AList.delete prev (AList.update (new_id (map fst kvs) nn)
              (JObj (renamed_field fprops vals nn (new_id (map fst kvs) nn))) kvs)) k
          = map_of kvs k)
     \<and> own (renamed_field fprops vals nn (new_id (map fst kvs) nn)) ''name'' = JStr nn
     \<and> own (renamed_field fprops vals nn (new_id (map fst kvs) nn)) ''uniqueId''
          = JStr (new_id (map fst kvs) nn)
     \<and> own (renamed_field fprops vals nn (new_id (map fst kvs) nn)) ''sub_fields''
          = JObj (getFieldsAsObject (map (reparent (JStr nn)) vals))
     \<and> (\<forall>(k, v) \<in> set (getFieldsAsObject (map (reparent (JStr nn)) vals)).
          js_get v ''parent'' = Some (JStr nn))
     \<and> (\<forall>old. old \<noteq> nn \<longrightarrow>
          (\<forall>(k, v) \<in> set (getFieldsAsObject (map (reparent (JStr nn)) vals)).
             js_get v ''parent'' \<noteq> Some (JStr old)))"
proof (intro impI, elim conjE)
  assume a: "own kvs prev = JObj fprops" "''sub_fields'' \<in> fst ` set fprops"
    "obj_values (own fprops ''sub_fields'') = Some vals"
  let ?nid = "new_id (map fst kvs) nn"
  let ?subs = "getFieldsAsObject (map (reparent (JStr nn)) vals)"
  let ?ren = "renamed_field fprops vals nn ?nid"
  let ?R = "AList.delete prev (AList.update ?nid (JObj ?ren) kvs)"
  have prev_key: "prev \<in> fst ` set kvs"
    using a(1) own_defined_key[of kvs prev] by simp
  have fresh: "?nid \<notin> fst ` set kvs"
    using new_id_fresh[of "map fst kvs" nn] by simp
  have ne: "?nid \<noteq> prev" using prev_key fresh by auto
  have c1: "changeFieldName (JObj kvs) prev (JStr nn) = Some ?R"
    using changeFieldName_repeater[OF a] by (simp add: renamed_field_def)
  have c2: "prev \<notin> fst ` set ?R" by (rule delete_notin_dom)
  have c3: "nn \<notin> fst ` set kvs \<Longrightarrow> ?nid = nn"
    by (simp add: new_id_def getNewFieldNumber_def)
  have c4: "nn \<in> fst ` set kvs \<Longrightarrow> \<exists>n\<ge>2. ?nid = suffixed nn n"
    using first_free_ge[of 2 "map fst kvs" nn "length kvs"]
    by (auto simp: new_id_def getNewFieldNumber_def)
  have c5: "map_of ?R ?nid = Some (JObj ?ren)"
    using ne by (simp add: delete_conv' update_conv')
  have c6: "\<forall>k. k \<noteq> prev \<and> k \<noteq> ?nid \<longrightarrow> map_of ?R k = map_of kvs k"
    by (simp add: delete_conv' update_conv')
  have c7: "own ?ren ''name'' = JStr nn" "own ?ren ''uniqueId'' = JStr ?nid"
    "own ?ren ''sub_fields'' = JObj ?subs"
    by (simp_all add: renamed_field_def obj_lit_def own_update)
  have c8: "js_get v ''parent'' = Some (JStr nn)" if "(k, v) \<in> set ?subs" for k v
  proof -
    from that have "v \<in> set (map (reparent (JStr nn)) vals)" by (rule getFieldsAsObject_values)
    then show ?thesis by (auto simp: reparent_parent)
  qed
  have c9: "\<forall>old. old \<noteq> nn \<longrightarrow> (\<forall>(k, v) \<in> set ?subs. js_get v ''parent'' \<noteq> Some (JStr old))"
    using c8 by auto
  from c8 have c8': "\<forall>(k, v) \<in> set ?subs. js_get v ''parent'' = Some (JStr nn)" by auto
  show "changeFieldName (JObj kvs) prev (JStr nn) = Some ?R
     \<and> prev \<notin> fst ` set ?R
     \<and> ?nid \<notin> fst ` set kvs
     \<and> (nn \<notin> fst ` set kvs \<longrightarrow> ?nid = nn)
     \<and> (nn \<in> fst ` set kvs \<longrightarrow> (\<exists>n\<ge>2. ?nid = suffixed nn n))
     \<and> map_of ?R ?nid = Some (JObj ?ren)
     \<and> (\<forall>k. k \<noteq> prev \<and> k \<noteq> ?nid \<longrightarrow> map_of ?R k = map_of kvs k)
     \<and> own ?ren ''name'' = JStr nn
     \<and> own ?ren ''uniqueId'' = JStr ?nid
     \<and> own ?ren ''sub_fields'' = JObj ?subs
     \<and> (\<forall>(k, v) \<in> set ?subs. js_get v ''parent'' = Some (JStr nn))
     \<and> (\<forall>old. old \<noteq> nn \<longrightarrow> (\<forall>(k, v) \<in> set ?subs. js_get v ''parent'' \<noteq> Some (JStr old)))"
    using c1 c2 fresh c3 c4 c5 c6 c7 c8' c9 by (intro conjI impI) assumption+
qed

theorem rename_rewrites_parent_of_sub_fields_witness:
  "own page_fields ''rows'' = JObj rows_field
   \<and> ''sub_fields'' \<in> fst ` set rows_field
   \<and> obj_values (own rows_field ''sub_fields'') = Some [JObj cell_field]
   \<and> ''grid'' \<notin> fst ` set page_fields
   \<and> changeFieldName (JObj page_fields) ''rows'' (JStr ''grid'') =
       Some [(''title'', JObj title_field),
             (''grid'', JObj [(''name'', JStr ''grid''), (''label'', JStr ''Rows''),
                (''control'', JStr ''repeater''), (''type'', JStr ''object''),
                (''location'', JStr ''editor''), (''order'', JNum 0),
                (''uniqueId'', JStr ''grid''),
                (''sub_fields'', JObj [(''cell'',
                   JObj [(''name'', JStr ''cell''), (''label'', JStr ''Cell''),
                         (''control'', JStr ''text''), (''type'', JStr ''string''),
                         (''location'', JStr ''editor''), (''order'', JNum 0),
                         (''parent'', JStr ''grid'')])])])]
   \<and> ''rows'' \<in> fst ` set page_fields
   \<and> changeFieldName (JObj page_fields) ''rows'' (JStr ''rows'') =
       Some [(''title'', JObj title_field),
             (''rows-2'', JObj [(''name'', JStr ''rows''), (''label'', JStr ''Rows''),
                (''control'', JStr ''repeater''), (''type'', JStr ''object''),
                (''location'', JStr ''editor''), (''order'', JNum 0),
                (''uniqueId'', JStr ''rows-2''),
                (''sub_fields'', JObj [(''cell'',
                   JObj [(''name'', JStr ''cell''), (''label'', JStr ''Cell''),
                         (''control'', JStr ''text''), (''type'', JStr ''string''),
                         (''location'', JStr ''editor''), (''order'', JNum 0),
                         (''parent'', JStr ''rows'')])])])]
   \<and> ''title'' \<noteq> ''rows'' \<and> ''title'' \<noteq> new_id (map fst page_fields) ''grid''
   \<and> getFieldsAsObject (map (reparent (JStr ''grid'')) [JObj cell_field]) =
        [(''cell'', JObj [(''name'', JStr ''cell''), (''label'', JStr ''Cell''),
                         (''control'', JStr ''text''), (''type'', JStr ''string''),
                         (''location'', JStr ''editor''), (''order'', JNum 0),
                         (''parent'', JStr ''grid'')])]"
proof -
  have h: "own page_fields ''rows'' = JObj rows_field"
    "''sub_fields'' \<in> fst ` set rows_field"
    "obj_values (own rows_field ''sub_fields'') = Some [JObj cell_field]"
    by (simp_all add: page_fields_def rows_field_def own_def obj_values_def)
  have k: "''grid'' \<notin> fst ` set page_fields" "''rows'' \<in> fst ` set page_fields"
    by (simp_all add: page_fields_def)
  note t1 = rename_rewrites_parent_of_sub_fields[of page_fields "''rows''" rows_field
      "[JObj cell_field]" "''grid''"]
  note t2 = rename_rewrites_parent_of_sub_fields[of page_fields "''rows''" rows_field
      "[JObj cell_field]" "''rows''"]
  have c1: "changeFieldName (JObj page_fields) ''rows'' (JStr ''grid'') =
       Some (AList.delete ''rows'' (AList.update (new_id (map fst page_fields) ''grid'')
              (JObj (renamed_field rows_field [JObj cell_field] ''grid''
                       (new_id (map fst page_fields) ''grid''))) page_fields))"
    using t1 h by simp
  have c2: "changeFieldName (JObj page_fields) ''rows'' (JStr ''rows'') =
       Some (AList.delete ''rows'' (AList.update (new_id (map fst page_fields) ''rows'')
              (JObj (renamed_field rows_field [JObj cell_field] ''rows''
                       (new_id (map fst page_fields) ''rows''))) page_fields))"
    using t2 h by simp
  show ?thesis
    unfolding c1 c2 h by code_simp
qed

section \<open>Sequences and collections\<close>

lemma filter_opt_total:
  "\<forall>x \<in> set xs. p x \<noteq> None \<Longrightarrow> filter_opt p xs = Some (filter (\<lambda>x. p x = Some True) xs)"
  by (induction xs) auto

lemma in_location_object: "is_object f \<Longrightarrow> in_location L f \<noteq> None"
  by (cases f) (simp_all add: in_location_def)

lemma getFieldsForLocation_top:
  assumes "own block ''fields'' = JObj kvs" "list_all is_object (map snd kvs)"
  shows "getFieldsForLocation block L None = Some (JArr (location_fields L kvs))"
proof -
  have "\<forall>x \<in> set (sort_key order_key (map snd kvs)). in_location L x \<noteq> None"
    using assms(2) by (auto simp: list_all_iff in_location_object simp del: not_None_eq)
  then have "filter_opt (in_location L) (sort_key order_key (map snd kvs)) =
      Some (location_fields L kvs)"
    unfolding location_fields_def by (rule filter_opt_total)
  then show ?thesis
    using assms(1)
    by (simp add: getFieldsForLocation_def getFieldsAsArray_def obj_values_JObj)
qed

lemma update_fresh: "k \<notin> fst ` set al \<Longrightarrow> AList.update k v al = al @ [(k, v)]"
  by (induction al) auto

lemma getFieldsAsObject_fold_keyed:
  "\<forall>f \<in> set zs. field_key f \<noteq> None \<Longrightarrow>
   distinct (map fst acc @ map (\<lambda>f. the (field_key f)) zs) \<Longrightarrow>
   fold (\<lambda>f acc. case field_key f of Some k \<Rightarrow> AList.update k f acc | None \<Rightarrow> acc) zs acc
     = acc @ map (\<lambda>f. (the (field_key f), f)) zs"
proof (induction zs arbitrary: acc)
  case Nil
  then show ?case by simp
next
  case (Cons z zs)
  from Cons.prems(1) obtain k where k: "field_key z = Some k" by auto
  have fresh: "k \<notin> fst ` set acc" using Cons.prems(2) k by auto
  have "distinct (map fst (acc @ [(k, z)]) @ map (\<lambda>f. the (field_key f)) zs)"
    using Cons.prems(2) k by auto
  then have "fold (\<lambda>f acc. case field_key f of Some k \<Rightarrow> AList.update k f acc | None \<Rightarrow> acc) zs (acc @ [(k, z)])
     = (acc @ [(k, z)]) @ map (\<lambda>f. (the (field_key f), f)) zs"
    using Cons.prems(1) by (intro Cons.IH) auto
  then show ?case using k fresh by (simp add: update_fresh)
qed

lemma getFieldsAsObject_keyed:
  "\<forall>f \<in> set zs. field_key f \<noteq> None \<Longrightarrow> distinct (map (\<lambda>f. the (field_key f)) zs) \<Longrightarrow>
   getFieldsAsObject zs = map (\<lambda>f. (the (field_key f), f)) zs"
  using getFieldsAsObject_fold_keyed[of zs "[]"] by (simp add: getFieldsAsObject_def)

lemma getFieldsAsObject_keyed_values:
  "\<forall>f \<in> set zs. field_key f \<noteq> None \<Longrightarrow> distinct (map (\<lambda>f. the (field_key f)) zs) \<Longrightarrow>
   map snd (getFieldsAsObject zs) = zs"
  by (simp add: getFieldsAsObject_keyed comp_def)

subsection \<open>The ordering normalizer\<close>

lemma length_set_orders_from: "length (set_orders_from i fs) = length fs"
  by (induction fs arbitrary: i) auto

lemma set_order_object:
  "field_key (JObj (obj_lit p [(''order'', v)])) = field_key (JObj p)"
  "in_location L (JObj (obj_lit p [(''order'', v)])) = in_location L (JObj p)"
  "js_get (JObj (obj_lit p [(''order'', v)])) ''name'' = js_get (JObj p) ''name''"
  "order_key (JObj (obj_lit p [(''order'', JNum n)])) = n"
  by (simp_all add: field_key_def in_location_def order_key_def obj_lit_one own_update
      cong: option.case_cong jsval.case_cong)

lemma set_orders_from_field_key:
  "list_all is_object fs \<Longrightarrow> map field_key (set_orders_from i fs) = map field_key fs"
proof (induction fs arbitrary: i)
  case Nil then show ?case by simp
next
  case (Cons f fs)
  then obtain p where "f = JObj p" by (cases f) auto
  with Cons show ?case by (simp add: set_order_object)
qed

lemma set_orders_from_in_location:
  "list_all is_object fs \<Longrightarrow>
   map (in_location L) (set_orders_from i fs) = map (in_location L) fs"
proof (induction fs arbitrary: i)
  case Nil then show ?case by simp
next
  case (Cons f fs)
  then obtain p where "f = JObj p" by (cases f) auto
  with Cons show ?case by (simp add: set_order_object)
qed

lemma set_orders_from_order_key:
  "map order_key (set_orders_from i fs) = map int [i..<i + length fs]"
proof (induction fs arbitrary: i)
  case Nil then show ?case by simp
next
  case (Cons f fs)
  have "[i..<i + length (f # fs)] = i # [Suc i..<Suc i + length fs]"
    by (subst upt_rec) simp
  with Cons show ?case by (simp add: set_order_object)
qed

lemma set_orders_from_objects: "list_all is_object (set_orders_from i fs)"
  by (induction fs arbitrary: i) auto

lemma sorted_set_orders_from: "sorted (map order_key (set_orders_from i fs))"
  unfolding set_orders_from_order_key by (simp add: sorted_map strict_mono_on_imp_mono_on sorted_wrt_map)

subsection \<open>The fields of a location\<close>

lemma location_fields_values:
  "location_fields L kvs =
     sort_key order_key (filter (\<lambda>f. in_location L f = Some True) (map snd kvs))"
  by (simp add: location_fields_def filter_sort)

lemma sorted_location_fields: "sorted (map order_key (location_fields L kvs))"
  by (simp add: location_fields_values)

lemma set_location_fields:
  "set (location_fields L kvs) = {f \<in> snd ` set kvs. in_location L f = Some True}"
  by (auto simp: location_fields_def)

lemma location_fields_group:
  assumes "map snd kvs = N @ ys"
    "\<forall>f \<in> set N. in_location L f = Some True"
    "\<forall>f \<in> set ys. in_location L f \<noteq> Some True"
    "sorted (map order_key N)"
  shows "location_fields L kvs = N"
proof -
  have "filter (\<lambda>f. in_location L f = Some True) (N @ ys) = N"
    using assms(2,3) by (simp add: filter_id_conv filter_empty_conv)
  then show ?thesis
    using assms(1,4) by (simp add: location_fields_values sort_key_id_if_sorted)
qed

lemma location_fields_group2:
  assumes "map snd kvs = N @ ys"
    "\<forall>f \<in> set N. in_location L f \<noteq> Some True"
    "\<forall>f \<in> set ys. in_location L f = Some True"
    "sorted (map order_key ys)"
  shows "location_fields L kvs = ys"
proof -
  have "filter (\<lambda>f. in_location L f = Some True) (N @ ys) = ys"
    using assms(2,3) by (simp add: filter_id_conv filter_empty_conv)
  then show ?thesis
    using assms(1,4) by (simp add: location_fields_values sort_key_id_if_sorted)
qed

lemma wf_collection_values:
  assumes "wf_collection kvs"
  shows "list_all is_object (map snd kvs)"
    and "map (\<lambda>f. the (field_key f)) (map snd kvs) = map fst kvs"
    and "\<forall>f \<in> snd ` set kvs. field_key f \<noteq> None"
    and "inj_on (\<lambda>f. the (field_key f)) (snd ` set kvs)"
    and "distinct (map snd kvs)"
proof -
  from assms have d: "distinct (map fst kvs)"
    and a: "\<forall>(k, v) \<in> set kvs. is_object v \<and> field_key v = Some k"
    by (auto simp: wf_collection_def list_all_iff)
  show "list_all is_object (map snd kvs)" using a by (auto simp: list_all_iff)
  show m: "map (\<lambda>f. the (field_key f)) (map snd kvs) = map fst kvs" using a by auto
  show "\<forall>f \<in> snd ` set kvs. field_key f \<noteq> None" using a by auto
  have dm: "distinct (map (\<lambda>f. the (field_key f)) (map snd kvs))" unfolding m by (rule d)
  then show "inj_on (\<lambda>f. the (field_key f)) (snd ` set kvs)"
    using distinct_map[of "\<lambda>f. the (field_key f)" "map snd kvs"] by simp
  show "distinct (map snd kvs)"
    using dm distinct_map[of "\<lambda>f. the (field_key f)" "map snd kvs"] by simp
qed

lemma distinct_location_fields:
  "wf_collection kvs \<Longrightarrow> distinct (location_fields L kvs)"
  using wf_collection_values(5)[of kvs] by (simp add: location_fields_def)

lemma distinct_keys_of_groups:
  assumes inj: "inj_on key S" and "set A \<subseteq> S" "set B \<subseteq> S"
    "distinct A" "distinct B" "set A \<inter> set B = {}"
  shows "distinct (map key (A @ B))"
proof -
  have "inj_on key (set (A @ B))" using inj assms(2,3) by (auto intro: inj_on_subset)
  moreover have "distinct (A @ B)" using assms(4-6) by simp
  ultimately show ?thesis by (simp only: distinct_map)
qed

lemma locations_disjoint:
  assumes "a \<noteq> b" "a \<noteq> []" "b \<noteq> []" "is_object f"
  shows "\<not> (in_location (JStr a) f = Some True \<and> in_location (JStr b) f = Some True)"
proof -
  obtain p where "f = JObj p" using assms(4) by (cases f) auto
  then show ?thesis using assms(1-3)
    by (cases "own p ''location''") (auto simp: in_location_def)
qed

lemma swap_items_in_range:
  "i < length xs \<Longrightarrow> j < length xs \<Longrightarrow> swap_items xs i j = xs[i := xs ! j, j := xs ! i]"
  by (simp add: swap_items_def arr_set_def arr_get_def)

lemma map_eq_all:
  assumes "map g A = map g B" "\<forall>x \<in> set B. P (g x)"
  shows "\<forall>x \<in> set A. P (g x)"
proof
  fix x assume "x \<in> set A"
  then have "g x \<in> set (map g A)" by simp
  then have "g x \<in> set (map g B)" using assms(1) by simp
  then show "P (g x)" using assms(2) by auto
qed

lemma groups_readback:
  assumes wf: "wf_collection kvs"
    and A: "set A \<subseteq> set (location_fields (JStr a) kvs)" "distinct A"
    and B: "set B \<subseteq> set (location_fields (JStr b) kvs)" "distinct B"
    and ab: "a \<noteq> b" "a \<noteq> []" "b \<noteq> []"
    and fkA: "map field_key NA = map field_key A"
    and locA: "\<And>L. map (in_location L) NA = map (in_location L) A"
    and objNA: "list_all is_object NA"
    and sortedA: "sorted (map order_key NA)"
    and fkB: "map field_key NB = map field_key B"
    and locB: "\<And>L. map (in_location L) NB = map (in_location L) B"
    and objNB: "list_all is_object NB"
    and sortedB: "sorted (map order_key NB)"
  shows "map snd (getFieldsAsObject (NA @ NB)) = NA @ NB"
    and "location_fields (JStr a) (getFieldsAsObject (NA @ NB)) = NA"
    and "location_fields (JStr b) (getFieldsAsObject (NA @ NB)) = NB"
    and "wf_collection (getFieldsAsObject (NA @ NB))"
proof -
  let ?key = "\<lambda>f. the (field_key f)"
  let ?S = "snd ` set kvs"
  note v = wf_collection_values[OF wf]
  have subA: "set A \<subseteq> ?S" and inA: "\<forall>f \<in> set A. in_location (JStr a) f = Some True"
    using A(1) by (auto simp: set_location_fields)
  have subB: "set B \<subseteq> ?S" and inB: "\<forall>f \<in> set B. in_location (JStr b) f = Some True"
    using B(1) by (auto simp: set_location_fields)
  have objS: "\<forall>f \<in> ?S. is_object f" using v(1) by (auto simp: list_all_iff)
  have disj: "set A \<inter> set B = {}"
  proof (rule ccontr)
    assume "set A \<inter> set B \<noteq> {}"
    then obtain f where f: "f \<in> set A" "f \<in> set B" by auto
    then have "is_object f" using subA objS by auto
    from locations_disjoint[OF ab this] f inA inB show False by auto
  qed
  have dk: "distinct (map ?key (A @ B))"
    by (rule distinct_keys_of_groups[OF v(4) subA subB A(2) B(2) disj])
  have keyA: "map ?key NA = map ?key A" and keyB: "map ?key NB = map ?key B"
    using arg_cong[OF fkA, of "map the"] arg_cong[OF fkB, of "map the"] by (simp_all add: comp_def)
  have "\<forall>f \<in> set A. field_key f \<noteq> None" using v(3) subA by blast
  then have defA: "\<forall>f \<in> set NA. field_key f \<noteq> None"
    by (rule map_eq_all[OF fkA, where P = "\<lambda>k. k \<noteq> None"])
  have "\<forall>f \<in> set B. field_key f \<noteq> None" using v(3) subB by blast
  then have defB: "\<forall>f \<in> set NB. field_key f \<noteq> None"
    by (rule map_eq_all[OF fkB, where P = "\<lambda>k. k \<noteq> None"])
  have dist: "distinct (map ?key (NA @ NB))"
    using dk keyA keyB by simp
  have defined: "\<forall>f \<in> set (NA @ NB). field_key f \<noteq> None"
    using defA defB by auto
  show vals: "map snd (getFieldsAsObject (NA @ NB)) = NA @ NB"
    by (rule getFieldsAsObject_keyed_values[OF defined dist])
  have notAb: "\<forall>f \<in> set A. in_location (JStr b) f \<noteq> Some True"
    using locations_disjoint[OF ab] inA subA objS by blast
  have notBa: "\<forall>f \<in> set B. in_location (JStr a) f \<noteq> Some True"
    using locations_disjoint[OF ab] inB subB objS by blast
  have NA_in: "\<forall>f \<in> set NA. in_location (JStr a) f = Some True"
    by (rule map_eq_all[OF locA, where P = "\<lambda>r. r = Some True"]) (rule inA)
  have NA_out: "\<forall>f \<in> set NA. in_location (JStr b) f \<noteq> Some True"
    by (rule map_eq_all[OF locA, where P = "\<lambda>r. r \<noteq> Some True"]) (rule notAb)
  have NB_in: "\<forall>f \<in> set NB. in_location (JStr b) f = Some True"
    by (rule map_eq_all[OF locB, where P = "\<lambda>r. r = Some True"]) (rule inB)
  have NB_out: "\<forall>f \<in> set NB. in_location (JStr a) f \<noteq> Some True"
    by (rule map_eq_all[OF locB, where P = "\<lambda>r. r \<noteq> Some True"]) (rule notBa)
  show "location_fields (JStr a) (getFieldsAsObject (NA @ NB)) = NA"
    by (rule location_fields_group[OF vals NA_in NB_out sortedA])
  show "location_fields (JStr b) (getFieldsAsObject (NA @ NB)) = NB"
    by (rule location_fields_group2[OF vals NA_out NB_in sortedB])
  have keyed: "getFieldsAsObject (NA @ NB) = map (\<lambda>f. (?key f, f)) (NA @ NB)"
    by (rule getFieldsAsObject_keyed[OF defined dist])
  have "distinct (map fst (getFieldsAsObject (NA @ NB)))"
    using dist unfolding keyed by (simp add: comp_def)
  moreover have "list_all (\<lambda>(k, v). is_object v \<and> field_key v = Some k)
      (getFieldsAsObject (NA @ NB))"
    unfolding keyed using defined objNA objNB
    by (auto simp: list_all_iff)
  ultimately show "wf_collection (getFieldsAsObject (NA @ NB))"
    by (simp add: wf_collection_def)
qed

lemma other_location_differs:
  "loc \<noteq> [] \<Longrightarrow>
   loc \<noteq> getOtherLocation loc \<and> loc \<noteq> [] \<and> getOtherLocation loc \<noteq> []"
  by (auto simp: getOtherLocation_def)

lemma getFieldsForLocation_wf:
  "own block ''fields'' = JObj kvs \<Longrightarrow> wf_collection kvs \<Longrightarrow>
   getFieldsForLocation block L None = Some (JArr (location_fields L kvs))"
  by (rule getFieldsForLocation_top) (simp_all add: wf_collection_values(1))

lemma getFieldsForLocation_nested:
  assumes "own block ''fields'' = JObj kvs" "own kvs p = JObj pf"
    "own pf ''sub_fields'' = JObj sfs" "wf_collection sfs"
  shows "getFieldsForLocation block L (Some p) = Some (JArr (location_fields L sfs))"
proof -
  have "\<forall>x \<in> set (sort_key order_key (map snd sfs)). in_location L x \<noteq> None"
    using wf_collection_values(1)[OF assms(4)]
    by (auto simp: list_all_iff in_location_object simp del: not_None_eq)
  then have "filter_opt (in_location L) (sort_key order_key (map snd sfs)) =
      Some (location_fields L sfs)"
    unfolding location_fields_def by (rule filter_opt_total)
  then show ?thesis
    using assms(1-3)
    by (simp add: getFieldsForLocation_def getFieldsAsArray_def obj_values_JObj sub_fields_of_JObj)
qed

section \<open>reorderFields\<close>

lemma reorderFields_top:
  assumes "own block ''fields'' = JObj kvs" "list_all is_object (map snd kvs)"
    "location_fields (JStr loc) kvs \<noteq> []"
  shows "reorderFields block i j loc None =
     Some (EditBlock (AList.update ''fields''
        (JObj (getFieldsAsObject
           (setCorrectOrderForFields (swap_items (location_fields (JStr loc) kvs) i j) @
            location_fields (JStr (getOtherLocation loc)) kvs))) block))"
  using assms
  by (simp add: reorderFields_def getFieldsForLocation_top obj_lit_one)

lemma reorder_readback:
  assumes wf: "wf_collection kvs"
    and loc: "loc \<noteq> []"
    and i: "i < length (location_fields (JStr loc) kvs)"
    and j: "j < length (location_fields (JStr loc) kvs)"
  shows "location_fields (JStr loc)
           (getFieldsAsObject
              (setCorrectOrderForFields (swap_items (location_fields (JStr loc) kvs) i j) @
               location_fields (JStr (getOtherLocation loc)) kvs))
         = setCorrectOrderForFields
             ((location_fields (JStr loc) kvs)
                [i := location_fields (JStr loc) kvs ! j, j := location_fields (JStr loc) kvs ! i])"
    and "location_fields (JStr (getOtherLocation loc))
           (getFieldsAsObject
              (setCorrectOrderForFields (swap_items (location_fields (JStr loc) kvs) i j) @
               location_fields (JStr (getOtherLocation loc)) kvs))
         = location_fields (JStr (getOtherLocation loc)) kvs"
    and "wf_collection
           (getFieldsAsObject
              (setCorrectOrderForFields (swap_items (location_fields (JStr loc) kvs) i j) @
               location_fields (JStr (getOtherLocation loc)) kvs))"
proof -
  let ?xs = "location_fields (JStr loc) kvs"
  let ?ys = "location_fields (JStr (getOtherLocation loc)) kvs"
  let ?sw = "?xs[i := ?xs ! j, j := ?xs ! i]"
  note v = wf_collection_values[OF wf]
  have sw: "swap_items ?xs i j = ?sw" using i j by (rule swap_items_in_range)
  have set_sw: "set ?sw = set ?xs" using i j by simp
  have dsw: "distinct ?sw" using i j distinct_location_fields[OF wf, of "JStr loc"] by simp
  have objS: "\<forall>f \<in> snd ` set kvs. is_object f" using v(1) by (auto simp: list_all_iff)
  have obj_sw: "list_all is_object ?sw"
    using set_sw objS by (auto simp: list_all_iff set_location_fields)
  have obj_ys: "list_all is_object ?ys"
    using objS by (auto simp: list_all_iff set_location_fields)
  note d = other_location_differs[OF loc]
  note r = groups_readback[where kvs = kvs and A = "?sw" and a = loc and B = "?ys"
      and b = "getOtherLocation loc" and NA = "set_orders_from 0 ?sw" and NB = "?ys"]
  note facts = wf set_sw dsw distinct_location_fields[OF wf] d
      set_orders_from_field_key[OF obj_sw] set_orders_from_in_location[OF obj_sw]
      set_orders_from_objects sorted_set_orders_from obj_ys sorted_location_fields
  have r1: "location_fields (JStr loc) (getFieldsAsObject (set_orders_from 0 ?sw @ ?ys)) = set_orders_from 0 ?sw"
    by (rule r(2)) (simp_all add: facts)
  have r2: "location_fields (JStr (getOtherLocation loc)) (getFieldsAsObject (set_orders_from 0 ?sw @ ?ys)) = ?ys"
    by (rule r(3)) (simp_all add: facts)
  have r3: "wf_collection (getFieldsAsObject (set_orders_from 0 ?sw @ ?ys))"
    by (rule r(4)) (simp_all add: facts)
  show "location_fields (JStr loc)
           (getFieldsAsObject (setCorrectOrderForFields (swap_items ?xs i j) @ ?ys))
         = setCorrectOrderForFields ?sw"
    using r1 by (simp add: setCorrectOrderForFields_def sw)
  show "location_fields (JStr (getOtherLocation loc))
           (getFieldsAsObject (setCorrectOrderForFields (swap_items ?xs i j) @ ?ys)) = ?ys"
    using r2 by (simp add: setCorrectOrderForFields_def sw)
  show "wf_collection (getFieldsAsObject (setCorrectOrderForFields (swap_items ?xs i j) @ ?ys))"
    using r3 by (simp add: setCorrectOrderForFields_def sw)
qed

lemma reorderFields_top_wf:
  assumes wf: "wf_collection kvs" and f: "own block ''fields'' = JObj kvs"
    and loc: "loc \<noteq> []"
    and i: "i < length (location_fields (JStr loc) kvs)"
    and j: "j < length (location_fields (JStr loc) kvs)"
  shows "reorderFields block i j loc None =
     Some (EditBlock (AList.update ''fields''
        (JObj (getFieldsAsObject
           (setCorrectOrderForFields
              ((location_fields (JStr loc) kvs)
                 [i := location_fields (JStr loc) kvs ! j, j := location_fields (JStr loc) kvs ! i]) @
            location_fields (JStr (getOtherLocation loc)) kvs))) block))"
    and "after_edit (reorderFields block i j loc None)
           (\<lambda>b'. getFieldsForLocation b' (JStr loc) None) =
         Some (JArr (setCorrectOrderForFields
              ((location_fields (JStr loc) kvs)
                 [i := location_fields (JStr loc) kvs ! j, j := location_fields (JStr loc) kvs ! i])))"
    and "after_edit (reorderFields block i j loc None)
           (\<lambda>b'. getFieldsForLocation b' (JStr (getOtherLocation loc)) None) =
         getFieldsForLocation block (JStr (getOtherLocation loc)) None"
proof -
  let ?xs = "location_fields (JStr loc) kvs"
  let ?new = "getFieldsAsObject (setCorrectOrderForFields (swap_items ?xs i j) @
               location_fields (JStr (getOtherLocation loc)) kvs)"
  have ne: "?xs \<noteq> []" using i by auto
  have e: "reorderFields block i j loc None =
      Some (EditBlock (AList.update ''fields'' (JObj ?new) block))"
    by (rule reorderFields_top[OF f wf_collection_values(1)[OF wf] ne])
  note rb = reorder_readback[OF wf loc i j]
  have g: "getFieldsForLocation (AList.update ''fields'' (JObj ?new) block) L None =
      Some (JArr (location_fields L ?new))" for L
    by (rule getFieldsForLocation_wf[OF own_fields_update rb(3)])
  show "reorderFields block i j loc None =
     Some (EditBlock (AList.update ''fields''
        (JObj (getFieldsAsObject
           (setCorrectOrderForFields (?xs[i := ?xs ! j, j := ?xs ! i]) @
            location_fields (JStr (getOtherLocation loc)) kvs))) block))"
    using e by (simp add: swap_items_in_range[OF i j])
  show "after_edit (reorderFields block i j loc None)
           (\<lambda>b'. getFieldsForLocation b' (JStr loc) None) =
         Some (JArr (setCorrectOrderForFields (?xs[i := ?xs ! j, j := ?xs ! i])))"
    unfolding e after_edit_EditBlock g rb(1) ..
  show "after_edit (reorderFields block i j loc None)
           (\<lambda>b'. getFieldsForLocation b' (JStr (getOtherLocation loc)) None) =
         getFieldsForLocation block (JStr (getOtherLocation loc)) None"
    unfolding e after_edit_EditBlock g rb(2) getFieldsForLocation_wf[OF f wf] ..
qed

lemma reorderFields_nested_wf:
  assumes f: "own block ''fields'' = JObj kvs" and p: "own kvs p = JObj pf"
    and s: "own pf ''sub_fields'' = JObj sfs" and wf: "wf_collection sfs"
    and loc: "loc \<noteq> []"
    and i: "i < length (location_fields (JStr loc) sfs)"
    and j: "j < length (location_fields (JStr loc) sfs)"
  shows "reorderFields block i j loc (Some p) =
     Some (EditBlock (AList.update ''fields''
        (JObj (AList.update p (JObj (AList.update ''sub_fields''
           (JObj (getFieldsAsObject
              (setCorrectOrderForFields
                 ((location_fields (JStr loc) sfs)
                    [i := location_fields (JStr loc) sfs ! j,
                     j := location_fields (JStr loc) sfs ! i])))) pf)) kvs)) block))"
    and "after_edit (reorderFields block i j loc (Some p))
           (\<lambda>b'. getFieldsForLocation b' (JStr loc) (Some p)) =
         Some (JArr (setCorrectOrderForFields
              ((location_fields (JStr loc) sfs)
                 [i := location_fields (JStr loc) sfs ! j, j := location_fields (JStr loc) sfs ! i])))"
proof -
  let ?xs = "location_fields (JStr loc) sfs"
  let ?sw = "?xs[i := ?xs ! j, j := ?xs ! i]"
  let ?new = "getFieldsAsObject (setCorrectOrderForFields ?sw)"
  let ?pf = "AList.update ''sub_fields'' (JObj ?new) pf"
  let ?kvs = "AList.update p (JObj ?pf) kvs"
  note v = wf_collection_values[OF wf]
  have ne: "?xs \<noteq> []" using i by auto
  have e: "reorderFields block i j loc (Some p) =
      Some (EditBlock (AList.update ''fields'' (JObj ?kvs) block))"
    using f p s ne
    by (simp add: reorderFields_def getFieldsForLocation_nested[OF f p s wf] obj_lit_one
        set_sub_fields_JObj swap_items_in_range[OF i j])
  have set_sw: "set ?sw = set ?xs" using i j by simp
  have dsw: "distinct ?sw" using i j distinct_location_fields[OF wf, of "JStr loc"] by simp
  have objS: "\<forall>f \<in> snd ` set sfs. is_object f" using v(1) by (auto simp: list_all_iff)
  have obj_sw: "list_all is_object ?sw"
    using set_sw objS by (auto simp: list_all_iff set_location_fields)
  note d = other_location_differs[OF loc]
  note r = groups_readback[where kvs = sfs and A = "?sw" and a = loc and B = "[]"
      and b = "getOtherLocation loc" and NA = "set_orders_from 0 ?sw" and NB = "[]"]
  note facts = wf set_sw dsw d
      set_orders_from_field_key[OF obj_sw] set_orders_from_in_location[OF obj_sw]
      set_orders_from_objects sorted_set_orders_from
  have r1: "location_fields (JStr loc) (getFieldsAsObject (set_orders_from 0 ?sw @ [])) = set_orders_from 0 ?sw"
    by (rule r(2)) (simp_all add: facts)
  have r3: "wf_collection (getFieldsAsObject (set_orders_from 0 ?sw @ []))"
    by (rule r(4)) (simp_all add: facts)
  have g: "getFieldsForLocation (AList.update ''fields'' (JObj ?kvs) block) (JStr loc) (Some p) =
      Some (JArr (location_fields (JStr loc) ?new))"
    using r3
    by (intro getFieldsForLocation_nested[where kvs = "?kvs" and pf = "?pf"])
      (simp_all add: own_update setCorrectOrderForFields_def)
  show "reorderFields block i j loc (Some p) =
     Some (EditBlock (AList.update ''fields'' (JObj ?kvs) block))"
    by (rule e)
  show "after_edit (reorderFields block i j loc (Some p))
           (\<lambda>b'. getFieldsForLocation b' (JStr loc) (Some p)) =
         Some (JArr (setCorrectOrderForFields ?sw))"
    unfolding e after_edit_EditBlock g using r1 by (simp add: setCorrectOrderForFields_def)
qed

text \<open>
  C5, as stated, fails on a collection that does not store every field under its own
  identifier, with an index beyond the sequence, and with the empty location.
  \<open>duplicateField\<close> copies the \<open>uniqueId\<close> of a field into its clone, so in the block
  it hands over for the fields \<open>u\<close> and \<open>v\<close> two fields have the identifier \<open>u\<close>;
  \<open>reorderFields(0, 1, "editor")\<close> on that block keeps one entry for both, the clone
  with order 2, behind \<open>v\<close> with order 0. On \<open>{a: order 0, b: order 1}\<close>,
  \<open>reorderFields(0, 2, "editor")\<close> leaves \<open>b\<close> with order 1 and gives \<open>a\<close> order 2.
  Fields whose location is the empty string are also fields of the complementary
  location \<open>editor\<close>, whose entries replace the exchanged ones: \<open>a\<close> keeps order 0 and
  \<open>b\<close> order 1.
\<close>

theorem reorderFields_counterexample:
  "duplicateField uv_block sel_u = Some (EditBlock uv_cloned_block)
   \<and> reorderFields uv_cloned_block 0 1 ''editor'' None =
       Some (EditBlock [(''name'', JStr ''blk''),
          (''fields'', JObj [(''v'', JObj [(''name'', JStr ''v''), (''uniqueId'', JStr ''v''),
                                          (''location'', JStr ''editor''), (''order'', JNum 0)]),
                            (''u'', JObj [(''name'', JStr ''u-2''), (''uniqueId'', JStr ''u''),
                                          (''location'', JStr ''editor''), (''order'', JNum 2)])])])
   \<and> reorderFields scenario1_block 0 2 ''editor'' None =
       Some (EditBlock [(''name'', JStr ''blk''),
          (''fields'', JObj [(''b'', JObj [(''name'', JStr ''b''), (''order'', JNum 1)]),
                            (''a'', JObj [(''name'', JStr ''a''), (''order'', JNum 2)])])])
   \<and> reorderFields blank_block 0 1 [] None =
       Some (EditBlock [(''name'', JStr ''blk''),
          (''fields'', JObj [(''b'', JObj [(''name'', JStr ''b''), (''location'', JStr []),
                                          (''order'', JNum 1)]),
                            (''a'', JObj [(''name'', JStr ''a''), (''location'', JStr []),
                                          (''order'', JNum 0)])])])"
  by code_simp

text \<open>
  C5, amended. Let the collection be well formed (every field an object, stored under
  its identifier: its \<open>uniqueId\<close>, or its \<open>name\<close> when it has no \<open>uniqueId\<close>), the
  location not the empty string, and both indices within the sequence of the location.
  Then \<open>reorderFields\<close> hands over a block in which the sequence of that location is
  the previous one with the elements at the two indices exchanged and every \<open>order\<close>
  set to the index (no element between the two moves), and in which the sequence of
  the complementary location is what it was; with a parent, the same holds for the
  sequence of the location among the \<open>sub_fields\<close> of the parent, which are the
  collection that has to be well formed. On \<open>{a: order 0, b: order 1}\<close>,
  \<open>reorderFields(0, 1, "editor")\<close> gives \<open>b\<close> order 0 and \<open>a\<close> order 1.
\<close>

theorem reorderFields_swaps_two_fields:
  "(wf_collection kvs \<and> own block ''fields'' = JObj kvs \<and> loc \<noteq> [] \<and>
      i < length (location_fields (JStr loc) kvs) \<and>
      j < length (location_fields (JStr loc) kvs) \<longrightarrow>
      getFieldsForLocation block (JStr loc) None = Some (JArr (location_fields (JStr loc) kvs))
      \<and> reorderFields block i j loc None =
          Some (EditBlock (AList.update ''fields''
            (JObj (getFieldsAsObject
               (setCorrectOrderForFields
                  ((location_fields (JStr loc) kvs)
                     [i := location_fields (JStr loc) kvs ! j,
                      j := location_fields (JStr loc) kvs ! i]) @
                location_fields (JStr (getOtherLocation loc)) kvs))) block))
      \<and> after_edit (reorderFields block i j loc None)
           (\<lambda>b'. getFieldsForLocation b' (JStr loc) None) =
          Some (JArr (setCorrectOrderForFields
              ((location_fields (JStr loc) kvs)
                 [i := location_fields (JStr loc) kvs ! j,
                  j := location_fields (JStr loc) kvs ! i])))
      \<and> after_edit (reorderFields block i j loc None)
           (\<lambda>b'. getFieldsForLocation b' (JStr (getOtherLocation loc)) None) =
          getFieldsForLocation block (JStr (getOtherLocation loc)) None)
   \<and> (own block ''fields'' = JObj kvs \<and> own kvs p = JObj pf \<and>
      own pf ''sub_fields'' = JObj sfs \<and> wf_collection sfs \<and> loc \<noteq> [] \<and>
      i < length (location_fields (JStr loc) sfs) \<and>
      j < length (location_fields (JStr loc) sfs) \<longrightarrow>
      getFieldsForLocation block (JStr loc) (Some p) = Some (JArr (location_fields (JStr loc) sfs))
      \<and> after_edit (reorderFields block i j loc (Some p))
           (\<lambda>b'. getFieldsForLocation b' (JStr loc) (Some p)) =
          Some (JArr (setCorrectOrderForFields
              ((location_fields (JStr loc) sfs)
                 [i := location_fields (JStr loc) sfs ! j,
                  j := location_fields (JStr loc) sfs ! i]))))
   \<and> map order_key (setCorrectOrderForFields zs) = map int [0..<length zs]
   \<and> reorderFields scenario1_block 0 1 ''editor'' None =
       Some (EditBlock [(''name'', JStr ''blk''),
          (''fields'', JObj [(''b'', JObj [(''name'', JStr ''b''), (''order'', JNum 0)]),
                            (''a'', JObj [(''name'', JStr ''a''), (''order'', JNum 1)])])])"
proof -
  have sc: "reorderFields scenario1_block 0 1 ''editor'' None =
       Some (EditBlock [(''name'', JStr ''blk''),
          (''fields'', JObj [(''b'', JObj [(''name'', JStr ''b''), (''order'', JNum 0)]),
                            (''a'', JObj [(''name'', JStr ''a''), (''order'', JNum 1)])])])"
    by code_simp
  have dense: "map order_key (setCorrectOrderForFields zs) = map int [0..<length zs]"
    using set_orders_from_order_key[of 0 zs] by (simp add: setCorrectOrderForFields_def)
  show ?thesis
    using reorderFields_top_wf[of kvs block loc i j] getFieldsForLocation_wf[of block kvs "JStr loc"]
      reorderFields_nested_wf[of block kvs p pf sfs loc i j]
      getFieldsForLocation_nested[of block kvs p pf sfs "JStr loc"] sc dense
    by simp
qed

theorem reorderFields_swaps_two_fields_witness:
  "wf_collection three_fields \<and> own three_block ''fields'' = JObj three_fields
   \<and> 0 < length (location_fields (JStr ''editor'') three_fields)
   \<and> 1 < length (location_fields (JStr ''editor'') three_fields)
   \<and> getFieldsForLocation three_block (JStr ''editor'') None = Some (JArr [JObj x_field, JObj y_field])
   \<and> after_edit (reorderFields three_block 0 1 ''editor'' None)
        (\<lambda>b'. getFieldsForLocation b' (JStr ''editor'') None) =
      Some (JArr [JObj [(''name'', JStr ''y''), (''location'', JStr ''editor''), (''order'', JNum 0)],
                  JObj [(''name'', JStr ''x''), (''location'', JStr ''editor''), (''order'', JNum 1)]])
   \<and> after_edit (reorderFields three_block 0 1 ''editor'' None)
        (\<lambda>b'. getFieldsForLocation b' (JStr ''inspector'') None) =
      Some (JArr [JObj z_field])
   \<and> own grid_block ''fields'' = JObj [(''rows'', JObj grid_rows)]
   \<and> own [(''rows'', JObj grid_rows)] ''rows'' = JObj grid_rows
   \<and> own grid_rows ''sub_fields'' = JObj grid_sub_fields
   \<and> wf_collection grid_sub_fields
   \<and> 1 < length (location_fields (JStr ''editor'') grid_sub_fields)
   \<and> after_edit (reorderFields grid_block 0 1 ''editor'' (Some ''rows''))
        (\<lambda>b'. getFieldsForLocation b' (JStr ''editor'') (Some ''rows'')) =
      Some (JArr [JObj [(''name'', JStr ''note''), (''label'', JStr ''Note''),
                        (''control'', JStr ''text''), (''type'', JStr ''string''),
                        (''location'', JStr ''editor''), (''order'', JNum 0),
                        (''parent'', JStr ''rows'')],
                  JObj [(''name'', JStr ''cell''), (''label'', JStr ''Cell''),
                        (''control'', JStr ''text''), (''type'', JStr ''string''),
                        (''location'', JStr ''editor''), (''order'', JNum 1),
                        (''parent'', JStr ''rows'')]])"
proof -
  have h1: "wf_collection three_fields" by code_simp
  have h2: "own three_block ''fields'' = JObj three_fields" by code_simp
  have h3: "0 < length (location_fields (JStr ''editor'') three_fields)"
    "1 < length (location_fields (JStr ''editor'') three_fields)" by code_simp+
  have g1: "own grid_block ''fields'' = JObj [(''rows'', JObj grid_rows)]" by code_simp
  have g2: "own [(''rows'', JObj grid_rows)] ''rows'' = JObj grid_rows" by code_simp
  have g3: "own grid_rows ''sub_fields'' = JObj grid_sub_fields" by code_simp
  have g4: "wf_collection grid_sub_fields" by code_simp
  have g5: "0 < length (location_fields (JStr ''editor'') grid_sub_fields)"
    "1 < length (location_fields (JStr ''editor'') grid_sub_fields)" by code_simp+
  note t1 = reorderFields_swaps_two_fields[of three_fields three_block "''editor''" 0 1]
  note t2 = reorderFields_swaps_two_fields[of "[(''rows'', JObj grid_rows)]" grid_block "''editor''" 0 1
      "''rows''" grid_rows grid_sub_fields]
  let ?xs = "location_fields (JStr ''editor'') three_fields"
  let ?ss = "location_fields (JStr ''editor'') grid_sub_fields"
  have H1: "wf_collection three_fields \<and> own three_block ''fields'' = JObj three_fields \<and>
      ''editor'' \<noteq> [] \<and> 0 < length ?xs \<and> 1 < length ?xs"
    using h1 h2 h3 by simp
  have H2: "own grid_block ''fields'' = JObj [(''rows'', JObj grid_rows)] \<and>
      own [(''rows'', JObj grid_rows)] ''rows'' = JObj grid_rows \<and>
      own grid_rows ''sub_fields'' = JObj grid_sub_fields \<and> wf_collection grid_sub_fields \<and>
      ''editor'' \<noteq> [] \<and> 0 < length ?ss \<and> 1 < length ?ss"
    using g1 g2 g3 g4 g5 by simp
  note k1 = t1[THEN conjunct1, THEN mp, OF H1]
  note k2 = t2[THEN conjunct2, THEN conjunct1, THEN mp, OF H2]
  note c0 = k1[THEN conjunct1]
  note c1 = k1[THEN conjunct2, THEN conjunct2, THEN conjunct1]
  note c2 = k1[THEN conjunct2, THEN conjunct2, THEN conjunct2]
  note c3 = k2[THEN conjunct2]
  have o: "getOtherLocation ''editor'' = ''inspector''" by code_simp
  have e0: "Some (JArr ?xs) = Some (JArr [JObj x_field, JObj y_field])" by code_simp
  have e1: "Some (JArr (setCorrectOrderForFields (?xs[0 := ?xs ! 1, 1 := ?xs ! 0]))) =
      Some (JArr [JObj [(''name'', JStr ''y''), (''location'', JStr ''editor''), (''order'', JNum 0)],
                  JObj [(''name'', JStr ''x''), (''location'', JStr ''editor''), (''order'', JNum 1)]])"
    by code_simp
  have e2: "getFieldsForLocation three_block (JStr ''inspector'') None = Some (JArr [JObj z_field])"
    by code_simp
  have e3: "Some (JArr (setCorrectOrderForFields (?ss[0 := ?ss ! 1, 1 := ?ss ! 0]))) =
      Some (JArr [JObj [(''name'', JStr ''note''), (''label'', JStr ''Note''),
                        (''control'', JStr ''text''), (''type'', JStr ''string''),
                        (''location'', JStr ''editor''), (''order'', JNum 0),
                        (''parent'', JStr ''rows'')],
                  JObj [(''name'', JStr ''cell''), (''label'', JStr ''Cell''),
                        (''control'', JStr ''text''), (''type'', JStr ''string''),
                        (''location'', JStr ''editor''), (''order'', JNum 1),
                        (''parent'', JStr ''rows'')]])"
    by code_simp
  show ?thesis
    using h1 h2 h3 g1 g2 g3 g4 g5 c0[unfolded e0] c1[unfolded e1] c2[unfolded o e2] c3[unfolded e3]
    by (intro conjI) assumption+
qed

section \<open>changeFieldSettings and the move to another location\<close>



lemma map_of_keyed:
  "distinct (map key zs) \<Longrightarrow> z \<in> set zs \<Longrightarrow> map_of (map (\<lambda>f. (key f, f)) zs) (key z) = Some z"
  by (induction zs) (auto simp: rev_image_eqI)
















section \<open>The orders after a mutation\<close>


lemma new_id_taken:
  "nm \<in> set keys \<Longrightarrow> getNewFieldNumber keys (Some nm) = Some n \<Longrightarrow> suffixed nm n = new_id keys nm"
  by (simp add: new_id_def)



lemma new_field_name_nonempty: "new_field_name n \<noteq> []"
  by (cases n) (simp_all add: new_field_name_def)

lemma new_id_nonempty: "nm \<noteq> [] \<Longrightarrow> new_id keys nm \<noteq> []"
  by (auto simp: new_id_def suffixed_def split: option.splits)

lemma after_edit_save_block: "after_edit (Some (save_block b)) f = f b"
  by (simp add: after_edit_def save_block_def persisted_def)


lemma named_simps:
  "sel_uniqueId (named nm) = Some nm" "sel_name (named nm) = Some nm" "sel_parent (named nm) = None"
  by (simp_all add: named_def)



end
